theory Spec2Isabelle
  imports Complex_Main "HOL-Library.Char_ord" "HOL-Library.List_Lexorder"
begin

section \<open>Volumes, label discovery and binary masks\<close>

text \<open>
  \<^verbatim>\<open>load_nifti_image\<close> returns \<^verbatim>\<open>nifti_image.get_fdata()\<close>: an N-dimensional array of
  64-bit floats, which may hold NaN. A voxel value is a number or NaN. On numbers
  \<^verbatim>\<open>==\<close>, \<^verbatim>\<open>!=\<close>, \<^verbatim>\<open>>\<close> and the order of \<^verbatim>\<open>np.unique\<close> are those of the reals
  (\<^verbatim>\<open>-0.0\<close> and \<^verbatim>\<open>0.0\<close> are equal and are the one number 0; the two infinities compare
  like numbers and are not represented apart). NaN is equal to nothing, itself included,
  different from everything and not greater than anything.
\<close>

datatype float64 = Num real | NaN

fun float_eq :: "float64 \<Rightarrow> float64 \<Rightarrow> bool" where
  "float_eq (Num x) (Num y) = (x = y)"
| "float_eq _ _ = False"

fun float_gt :: "float64 \<Rightarrow> float64 \<Rightarrow> bool" where
  "float_gt (Num x) (Num y) = (x > y)"
| "float_gt _ _ = False"

text \<open>A volume is its shape together with its voxels in flat (row-major) order.\<close>

record volume =
  shape :: "nat list"
  voxels :: "float64 list"

fun finite_values :: "float64 list \<Rightarrow> real list" where
  "finite_values [] = []"
| "finite_values (Num x # xs) = x # finite_values xs"
| "finite_values (NaN # xs) = finite_values xs"

text \<open>
  \<^verbatim>\<open>np.unique(a)\<close>: the distinct values of the flattened array in ascending order; when
  the array holds NaN, a single NaN comes last (numpy 1.21 and later).
\<close>

definition np_unique :: "float64 list \<Rightarrow> float64 list" where
  "np_unique xs =
     map Num (sort (remdups (finite_values xs))) @ (if NaN \<in> set xs then [NaN] else [])"

text \<open>
  Lines 121--127 of \<^verbatim>\<open>compute_metrics_single_subject\<close>:
  \<^verbatim>\<open>
    unique_labels_reference = np.unique(reference_data)
    unique_labels_reference = unique_labels_reference[unique_labels_reference != 0]
    unique_labels_prediction = np.unique(prediction_data)
    unique_labels_prediction = unique_labels_prediction[unique_labels_prediction != 0]
    unique_labels = np.unique(np.concatenate((unique_labels_reference, unique_labels_prediction)))
  \<close>
\<close>

definition unique_labels :: "volume \<Rightarrow> volume \<Rightarrow> float64 list" where
  "unique_labels reference_data prediction_data =
     (let unique_labels_reference = np_unique (voxels reference_data);
          unique_labels_reference = filter (\<lambda>x. \<not> float_eq x (Num 0)) unique_labels_reference;
          unique_labels_prediction = np_unique (voxels prediction_data);
          unique_labels_prediction = filter (\<lambda>x. \<not> float_eq x (Num 0)) unique_labels_prediction
      in np_unique (unique_labels_reference @ unique_labels_prediction))"

text \<open>
  \<^verbatim>\<open>np.array(data == label, dtype=float)\<close> (lines 136--137): the same-shaped array holding
  1.0 where the voxel equals the label and 0.0 elsewhere.
\<close>

definition label_mask :: "volume \<Rightarrow> float64 \<Rightarrow> volume" where
  "label_mask data label =
     \<lparr>shape = shape data,
      voxels = map (\<lambda>x. if float_eq x label then Num 1 else Num 0) (voxels data)\<rparr>"


section \<open>Python dictionaries and values\<close>

text \<open>
  A Python \<^verbatim>\<open>dict\<close> keeps its keys in insertion order, and \<^verbatim>\<open>d[k] = v\<close> replaces the value
  in place when \<^verbatim>\<open>k\<close> is present and appends the pair otherwise. It is modelled as an
  association list.
\<close>

type_synonym ('k, 'a) dict = "('k \<times> 'a) list"

fun setitem :: "'k \<Rightarrow> 'a \<Rightarrow> ('k, 'a) dict \<Rightarrow> ('k, 'a) dict" where
  "setitem k v [] = [(k, v)]"
| "setitem k v ((k', v') # d) = (if k' = k then (k, v) # d else (k', v') # setitem k v d)"

text \<open>
  The keys of \<^verbatim>\<open>metrics_dict\<close> are the strings \<^verbatim>\<open>'reference'\<close> and \<^verbatim>\<open>'prediction'\<close> and
  the label values (floats, and the integer 0 of the special case, which is the same key
  as the float 0.0). A dictionary finds a key that is the same object or an equal one, so
  a NaN key is found through the key object itself, as \<^verbatim>\<open>build_output_dataframe\<close> does
  with the keys it reads from the dictionary. The equality of the model agrees with that
  on dictionaries with at most one NaN key; the label list of \<^verbatim>\<open>np.unique\<close> holds at
  most one NaN.
\<close>

datatype key = Str string | Lab float64

text \<open>
  The values that occur in the dictionaries: paths, labels, flags, the scalars of the
  metric engine (of a type \<open>'v\<close> this development does not look into) and nested
  dictionaries.
\<close>

datatype 'v pyval =
    PStr string
  | PNum float64
  | PBool bool
  | PMetric 'v
  | PDict "(string \<times> 'v pyval) list"

datatype error =
    FileNotFoundError string
  | ValueError_shape "nat list" "nat list"
  | ValueError_count nat nat
  | ValueError_max
  | KeyError key
  | ValueError_update
  | TypeError_update

fun key_val :: "key \<Rightarrow> 'v pyval" where
  "key_val (Str s) = PStr s"
| "key_val (Lab x) = PNum x"

section \<open>The external collaborators\<close>

text \<open>
  The file system, as far as the program reads it: \<^verbatim>\<open>abspath\<close> stands for
  \<^verbatim>\<open>os.path.abspath(os.path.expanduser(p))\<close>, \<^verbatim>\<open>files\<close> gives the decoded data of each
  existing image (\<open>None\<close> where \<^verbatim>\<open>os.path.exists\<close> is false; a file that exists and
  cannot be decoded is not modelled), \<^verbatim>\<open>path_join\<close> is \<^verbatim>\<open>os.path.join\<close>.
\<close>

record filesystem =
  abspath :: "string \<Rightarrow> string"
  files :: "string \<Rightarrow> volume option"
  isdir :: "string \<Rightarrow> bool"
  listdir :: "string \<Rightarrow> string list"
  path_join :: "string \<Rightarrow> string \<Rightarrow> string"

text \<open>
  The metric engine (\<^verbatim>\<open>BinaryPairwiseMeasures\<close> of MetricsReloaded) is not part of the
  repository. One use of it, \<^verbatim>\<open>bpm = BPM(pred, ref, measures=metrics)\<close> followed by
  \<^verbatim>\<open>bpm.to_dict_meas()\<close>, \<^verbatim>\<open>bpm.flag_empty_ref\<close> and \<^verbatim>\<open>bpm.flag_empty_pred\<close>, is a
  parameter of the model: a function of the two arrays, the metric names and a state
  \<open>'s\<close> of the engine's own (so an engine whose answers depend on earlier calls is
  covered), returning the three observations and the new state.
\<close>

record 'v bpm =
  to_dict_meas :: "(string \<times> 'v) list"
  flag_empty_ref :: bool
  flag_empty_pred :: bool

type_synonym ('v, 's) engine = "volume \<Rightarrow> volume \<Rightarrow> string list \<Rightarrow> 's \<Rightarrow> 'v bpm \<times> 's"

section \<open>The subject evaluator\<close>

definition load_nifti_image :: "filesystem \<Rightarrow> string \<Rightarrow> error + volume" where
  "load_nifti_image fs file_path =
     (let file_path = abspath fs file_path
      in case files fs file_path of
           None \<Rightarrow> Inl (FileNotFoundError file_path)
         | Some nifti_image \<Rightarrow> Inr nifti_image)"

text \<open>
  Lines 140--143 and 154--158: the engine's answer with the two flags stored under
  \<^verbatim>\<open>'EmptyRef'\<close> and \<^verbatim>\<open>'EmptyPred'\<close>.
\<close>

definition dict_seg :: "'v bpm \<Rightarrow> (string, 'v pyval) dict" where
  "dict_seg b =
     (let dict_seg = map (\<lambda>(k, v). (k, PMetric v)) (to_dict_meas b);
          dict_seg = setitem ''EmptyRef'' (PBool (flag_empty_ref b)) dict_seg;
          dict_seg = setitem ''EmptyPred'' (PBool (flag_empty_pred b)) dict_seg
      in dict_seg)"

text \<open>
  The built-in \<^verbatim>\<open>max\<close> of Python: the first item, replaced by each later item that is
  greater than the current one; a \<^verbatim>\<open>ValueError\<close> on an empty sequence.
\<close>

fun py_max :: "float64 list \<Rightarrow> error + float64" where
  "py_max [] = Inl ValueError_max"
| "py_max (x # xs) = Inr (fold (\<lambda>item maxitem. if float_gt item maxitem then item else maxitem) xs x)"

text \<open>
  The \<^verbatim>\<open>for label in unique_labels: ... if label == max(unique_labels): break\<close> loop of
  lines 133--148, started on the labels still to visit. The Boolean of the result tells
  whether the loop was left by \<^verbatim>\<open>break\<close>; when it is \<open>False\<close> the \<^verbatim>\<open>else\<close> block of
  the loop runs. (The \<^verbatim>\<open>print\<close> calls are left out.)
\<close>

fun label_loop ::
  "('v, 's) engine \<Rightarrow> volume \<Rightarrow> volume \<Rightarrow> string list \<Rightarrow> float64 list \<Rightarrow> float64 list \<Rightarrow>
   (key, 'v pyval) dict \<times> 's \<Rightarrow> (error + bool \<times> (key, 'v pyval) dict) \<times> 's" where
  "label_loop E prediction_data reference_data metrics all_labels [] (metrics_dict, s) =
     (Inr (False, metrics_dict), s)"
| "label_loop E prediction_data reference_data metrics all_labels (label # rest) (metrics_dict, s) =
     (let prediction_data_label = label_mask prediction_data label;
          reference_data_label = label_mask reference_data label;
          (b, s') = E prediction_data_label reference_data_label metrics s;
          metrics_dict = setitem (Lab label) (PDict (dict_seg b)) metrics_dict
      in case py_max all_labels of
           Inl e \<Rightarrow> (Inl e, s')
         | Inr m \<Rightarrow>
             if float_eq label m then (Inr (True, metrics_dict), s')
             else label_loop E prediction_data reference_data metrics all_labels rest (metrics_dict, s'))"

definition compute_metrics_single_subject ::
  "('v, 's) engine \<Rightarrow> filesystem \<Rightarrow> string \<Rightarrow> string \<Rightarrow> string list \<Rightarrow> 's \<Rightarrow>
   (error + (key, 'v pyval) dict) \<times> 's" where
  "compute_metrics_single_subject E fs prediction reference metrics s =
     (case load_nifti_image fs prediction of
        Inl e \<Rightarrow> (Inl e, s)
      | Inr prediction_data \<Rightarrow>
     (case load_nifti_image fs reference of
        Inl e \<Rightarrow> (Inl e, s)
      | Inr reference_data \<Rightarrow>
     if shape prediction_data \<noteq> shape reference_data
     then (Inl (ValueError_shape (shape prediction_data) (shape reference_data)), s)
     else
       (let labels = unique_labels reference_data prediction_data;
            metrics_dict = [(Str ''reference'', PStr reference), (Str ''prediction'', PStr prediction)]
        in case label_loop E prediction_data reference_data metrics labels labels (metrics_dict, s) of
             (Inl e, s') \<Rightarrow> (Inl e, s')
           | (Inr (broke, metrics_dict), s') \<Rightarrow>
               if broke then (Inr metrics_dict, s')
               else
                 (let (b, s'') = E prediction_data reference_data metrics s'
                  in (Inr (setitem (Lab (Num 0)) (PDict (dict_seg b)) metrics_dict), s'')))))"

section \<open>The result table\<close>

definition getitem :: "(key, 'a) dict \<Rightarrow> key \<Rightarrow> error + 'a" where
  "getitem d k = (case map_of d k of None \<Rightarrow> Inl (KeyError k) | Some v \<Rightarrow> Inr v)"

text \<open>
  \<^verbatim>\<open>row.update(metrics)\<close>: every pair of a dictionary is stored in turn. Python also
  accepts an iterable of pairs: the empty string changes nothing, a non-empty string is
  refused with a \<^verbatim>\<open>ValueError\<close>, and a value that is not iterable with a \<^verbatim>\<open>TypeError\<close>.
\<close>

fun dict_update :: "(string, 'v pyval) dict \<Rightarrow> 'v pyval \<Rightarrow> error + (string, 'v pyval) dict" where
  "dict_update row (PDict metrics) = Inr (fold (\<lambda>(k, v) row. setitem k v row) metrics row)"
| "dict_update row (PStr s) = (if s = [] then Inr row else Inl ValueError_update)"
| "dict_update row _ = Inl TypeError_update"

text \<open>The inner loop of \<^verbatim>\<open>build_output_dataframe\<close> (lines 175--185).\<close>

fun label_rows ::
  "(key, 'v pyval) dict \<Rightarrow> key list \<Rightarrow> (string, 'v pyval) dict list \<Rightarrow>
   error + (string, 'v pyval) dict list" where
  "label_rows item [] rows = Inr rows"
| "label_rows item (label # labels) rows =
     (case getitem item label of
        Inl e \<Rightarrow> Inl e
      | Inr metrics \<Rightarrow>
     (case getitem item (Str ''reference'') of
        Inl e \<Rightarrow> Inl e
      | Inr r \<Rightarrow>
     (case getitem item (Str ''prediction'') of
        Inl e \<Rightarrow> Inl e
      | Inr p \<Rightarrow>
     (case dict_update [(''reference'', r), (''prediction'', p), (''label'', key_val label)] metrics of
        Inl e \<Rightarrow> Inl e
      | Inr row \<Rightarrow> label_rows item labels (rows @ [row])))))"

text \<open>The outer loop (lines 171--174): the rows of all items, in order.\<close>

fun build_rows ::
  "(key, 'v pyval) dict list \<Rightarrow> (string, 'v pyval) dict list \<Rightarrow>
   error + (string, 'v pyval) dict list" where
  "build_rows [] rows = Inr rows"
| "build_rows (item # output_list) rows =
     (let labels = filter (\<lambda>key. key \<notin> set [Str ''reference'', Str ''prediction'']) (map fst item)
      in case label_rows item labels rows of
           Inl e \<Rightarrow> Inl e
         | Inr rows \<Rightarrow> build_rows output_list rows)"

text \<open>
  Modelled from the spec: \<^verbatim>\<open>pd.DataFrame(rows)\<close> is the constructor of the pandas library,
  which is not part of the repository. Following section 4.5 of the specification, the
  columns are the union of the fields observed in the rows (in the order of their first
  appearance), every row is kept, and a field that a row lacks is the missing-value
  marker, here \<open>None\<close>.
\<close>

fun first_seen :: "'a list \<Rightarrow> 'a list \<Rightarrow> 'a list" where
  "first_seen acc [] = acc"
| "first_seen acc (x # xs) = first_seen (if x \<in> set acc then acc else acc @ [x]) xs"

record 'v dataframe =
  columns :: "string list"
  cells :: "'v pyval option list list"

definition DataFrame :: "(string, 'v pyval) dict list \<Rightarrow> 'v dataframe" where
  "DataFrame rows =
     (let cols = first_seen [] (concat (map (map fst) rows))
      in \<lparr>columns = cols, cells = map (\<lambda>row. map (map_of row) cols) rows\<rparr>)"

definition build_output_dataframe :: "(key, 'v pyval) dict list \<Rightarrow> error + 'v dataframe" where
  "build_output_dataframe output_list =
     (case build_rows output_list [] of
        Inl e \<Rightarrow> Inl e
      | Inr rows \<Rightarrow> Inr (DataFrame rows))"

section \<open>The driver\<close>

definition endswith :: "string \<Rightarrow> string \<Rightarrow> bool" where
  "endswith s suffix = (length suffix \<le> length s \<and> drop (length s - length suffix) s = suffix)"

definition get_images_in_folder ::
  "filesystem \<Rightarrow> string \<Rightarrow> string \<Rightarrow> error + (string list \<times> string list)" where
  "get_images_in_folder fs prediction reference =
     (let prediction_files =
            map (path_join fs prediction) (filter (\<lambda>f. endswith f ''.nii.gz'') (listdir fs prediction));
          reference_files =
            map (path_join fs reference) (filter (\<lambda>f. endswith f ''.nii.gz'') (listdir fs reference))
      in if length prediction_files \<noteq> length reference_files
         then Inl (ValueError_count (length prediction_files) (length reference_files))
         else Inr (sort prediction_files, sort reference_files))"

text \<open>The loop over the subjects (lines 206--211); an exception ends it.\<close>

fun subjects_loop ::
  "('v, 's) engine \<Rightarrow> filesystem \<Rightarrow> string list \<Rightarrow> (string \<times> string) list \<Rightarrow>
   (key, 'v pyval) dict list \<times> 's \<Rightarrow> (error + (key, 'v pyval) dict list) \<times> 's" where
  "subjects_loop E fs metrics [] (output_list, s) = (Inr output_list, s)"
| "subjects_loop E fs metrics ((prediction, reference) # rest) (output_list, s) =
     (case compute_metrics_single_subject E fs prediction reference metrics s of
        (Inl e, s') \<Rightarrow> (Inl e, s')
      | (Inr metrics_dict, s') \<Rightarrow>
          subjects_loop E fs metrics rest (output_list @ [metrics_dict], s'))"

text \<open>
  The subject pairs of a run (lines 202--216): the sorted files of the two folders
  paired by position, or the single pair of the two arguments.
\<close>

record args =
  arg_prediction :: string
  arg_reference :: string
  arg_metrics :: "string list"

definition subject_pairs :: "filesystem \<Rightarrow> args \<Rightarrow> error + (string \<times> string) list" where
  "subject_pairs fs a =
     (if isdir fs (arg_prediction a) \<and> isdir fs (arg_reference a)
      then (case get_images_in_folder fs (arg_prediction a) (arg_reference a) of
              Inl e \<Rightarrow> Inl e
            | Inr (prediction_files, reference_files) \<Rightarrow>
                Inr (map (\<lambda>i. (prediction_files ! i, reference_files ! i)) [0..<length prediction_files]))
      else Inr [(arg_prediction a, arg_reference a)])"

text \<open>
  \<^verbatim>\<open>main\<close> after the parsing of the arguments. \<open>Inr df\<close> is the table handed to
  \<^verbatim>\<open>df.to_csv\<close>; \<open>Inl e\<close> is a run ended by the exception \<open>e\<close>, which writes no file.
\<close>

definition main :: "('v, 's) engine \<Rightarrow> filesystem \<Rightarrow> args \<Rightarrow> 's \<Rightarrow> (error + 'v dataframe) \<times> 's" where
  "main E fs a s =
     (case subject_pairs fs a of
        Inl e \<Rightarrow> (Inl e, s)
      | Inr pairs \<Rightarrow>
     (case subjects_loop E fs (arg_metrics a) pairs ([], s) of
        (Inl e, s') \<Rightarrow> (Inl e, s')
      | (Inr output_list, s') \<Rightarrow>
     (case build_output_dataframe output_list of
        Inl e \<Rightarrow> (Inl e, s')
      | Inr df \<Rightarrow> (Inr df, s'))))"

section \<open>Formulations of the specification\<close>

subsection \<open>Rebuilding a volume from its masks\<close>

text \<open>
  The round trip of the specification (section 8), written after its words: starting from
  an all-background array, each label in turn is assigned at the voxels where the mask of
  that label is true.
\<close>

definition assign_at_mask :: "float64 \<Rightarrow> float64 list \<Rightarrow> float64 list \<Rightarrow> float64 list" where
  "assign_at_mask l msk acc = map (\<lambda>(m, a). if float_eq m (Num 1) then l else a) (zip msk acc)"

definition reconstruct :: "volume \<Rightarrow> float64 list \<Rightarrow> float64 list" where
  "reconstruct V labels =
     fold (\<lambda>l acc. assign_at_mask l (voxels (label_mask V l)) acc) labels
       (replicate (length (voxels V)) (Num 0))"

subsection \<open>The evaluator with an explicit conditional\<close>

text \<open>
  The reference formulation of section 4.4 and of the design notes of the
  specification, written after its words: every discovered label is evaluated in turn
  (no \<^verbatim>\<open>break\<close>), and an explicit test of the label set routes the empty case to the
  single evaluation of the whole volumes under the key 0.
\<close>

fun evaluate_labels ::
  "('v, 's) engine \<Rightarrow> volume \<Rightarrow> volume \<Rightarrow> string list \<Rightarrow> float64 list \<Rightarrow>
   (key, 'v pyval) dict \<times> 's \<Rightarrow> (key, 'v pyval) dict \<times> 's" where
  "evaluate_labels E prediction_data reference_data metrics [] (result, s) = (result, s)"
| "evaluate_labels E prediction_data reference_data metrics (label # rest) (result, s) =
     (let (b, s') = E (label_mask prediction_data label) (label_mask reference_data label) metrics s
      in evaluate_labels E prediction_data reference_data metrics rest
           (setitem (Lab label) (PDict (dict_seg b)) result, s'))"

definition evaluate_subject_spec ::
  "('v, 's) engine \<Rightarrow> filesystem \<Rightarrow> string \<Rightarrow> string \<Rightarrow> string list \<Rightarrow> 's \<Rightarrow>
   (error + (key, 'v pyval) dict) \<times> 's" where
  "evaluate_subject_spec E fs prediction reference metrics s =
     (case load_nifti_image fs prediction of
        Inl e \<Rightarrow> (Inl e, s)
      | Inr prediction_data \<Rightarrow>
     (case load_nifti_image fs reference of
        Inl e \<Rightarrow> (Inl e, s)
      | Inr reference_data \<Rightarrow>
     if shape prediction_data \<noteq> shape reference_data
     then (Inl (ValueError_shape (shape prediction_data) (shape reference_data)), s)
     else
       (let L = unique_labels reference_data prediction_data;
            tagged = [(Str ''reference'', PStr reference), (Str ''prediction'', PStr prediction)]
        in if L = []
           then (let (b, s') = E prediction_data reference_data metrics s
                 in (Inr (setitem (Lab (Num 0)) (PDict (dict_seg b)) tagged), s'))
           else (let (result, s') = evaluate_labels E prediction_data reference_data metrics L (tagged, s)
                 in (Inr result, s')))))"

subsection \<open>Subject results as typed data\<close>

text \<open>
  A typed view of a subject result, used to state what the evaluator returns: the engine's
  answers for a list of labels, each with its label, and the dictionary that stores them
  after the two identifying entries.
\<close>

fun engine_run ::
  "('v, 's) engine \<Rightarrow> volume \<Rightarrow> volume \<Rightarrow> string list \<Rightarrow> float64 list \<Rightarrow> 's \<Rightarrow>
   (float64 \<times> 'v bpm) list \<times> 's" where
  "engine_run E pd rd ms [] s = ([], s)"
| "engine_run E pd rd ms (l # ls) s =
     (let (b, s') = E (label_mask pd l) (label_mask rd l) ms s;
          (bs, s'') = engine_run E pd rd ms ls s'
      in ((l, b) # bs, s''))"

definition subject_records ::
  "('v, 's) engine \<Rightarrow> volume \<Rightarrow> volume \<Rightarrow> string list \<Rightarrow> 's \<Rightarrow> (float64 \<times> 'v bpm) list \<times> 's" where
  "subject_records E pd rd ms s =
     (if unique_labels rd pd = []
      then (let (b, s') = E pd rd ms s in ([(Num 0, b)], s'))
      else engine_run E pd rd ms (unique_labels rd pd) s)"

definition subject_dict :: "string \<Rightarrow> string \<Rightarrow> (float64 \<times> 'v bpm) list \<Rightarrow> (key, 'v pyval) dict" where
  "subject_dict r p recs =
     (Str ''reference'', PStr r) # (Str ''prediction'', PStr p)
       # map (\<lambda>(l, b). (Lab l, PDict (dict_seg b))) recs"

subsection \<open>Contracts of the metric engine\<close>

text \<open>
  The contract of the engine's two flags, as section 3 of the specification states it:
  \<^verbatim>\<open>flag_empty_ref\<close> tells that the reference array handed to the engine has no non-zero
  voxel, \<^verbatim>\<open>flag_empty_pred\<close> the same of the prediction array. It is a hypothesis on the
  engine where a statement needs it.
\<close>

definition flags_report_empty_masks :: "('v, 's) engine \<Rightarrow> bool" where
  "flags_report_empty_masks E \<longleftrightarrow>
     (\<forall>pred ref ms s.
        flag_empty_ref (fst (E pred ref ms s)) = (\<forall>x\<in>set (voxels ref). float_eq x (Num 0)) \<and>
        flag_empty_pred (fst (E pred ref ms s)) = (\<forall>x\<in>set (voxels pred). float_eq x (Num 0)))"

text \<open>
  The precondition of the idempotence property: the engine's answer is a function of
  the two masks and the metric list, whatever the state the engine is in.
\<close>

definition deterministic_engine :: "('v, 's) engine \<Rightarrow> bool" where
  "deterministic_engine E \<longleftrightarrow> (\<forall>pred ref ms s s'. fst (E pred ref ms s) = fst (E pred ref ms s'))"

subsection \<open>A concrete engine and file system\<close>

text \<open>
  An engine and a file system to run the model on: the engine reports, for every
  requested metric, the number of voxels set in both masks, and counts its calls in its
  state.
\<close>

definition count_engine :: "(nat, nat) engine" where
  "count_engine pred ref ms n =
     (\<lparr>to_dict_meas =
         map (\<lambda>k. (k, length (filter (\<lambda>(x, y). float_eq x (Num 1) \<and> float_eq y (Num 1))
                                  (zip (voxels pred) (voxels ref))))) ms,
       flag_empty_ref = list_all (\<lambda>x. float_eq x (Num 0)) (voxels ref),
       flag_empty_pred = list_all (\<lambda>x. float_eq x (Num 0)) (voxels pred)\<rparr>,
      Suc n)"

definition example_fs :: filesystem where
  "example_fs =
     \<lparr>abspath = (\<lambda>p. ''/data/'' @ p),
      files = [''/data/ref'' \<mapsto> \<lparr>shape = [2, 2], voxels = [Num 0, Num 1, Num 2, Num 1]\<rparr>,
               ''/data/pred'' \<mapsto> \<lparr>shape = [2, 2], voxels = [Num 3, Num 1, Num 0, Num 1]\<rparr>,
               ''/data/empty'' \<mapsto> \<lparr>shape = [2, 2], voxels = [Num 0, Num 0, Num 0, Num 0]\<rparr>,
               ''/data/flat'' \<mapsto> \<lparr>shape = [4], voxels = [Num 0, Num 0, Num 0, Num 0]\<rparr>,
               ''/data/nan1'' \<mapsto> \<lparr>shape = [3], voxels = [NaN, Num 1, Num 0]\<rparr>,
               ''/data/zero3'' \<mapsto> \<lparr>shape = [3], voxels = [Num 0, Num 0, Num 0]\<rparr>,
               ''/data/nan'' \<mapsto> \<lparr>shape = [2], voxels = [NaN, Num 0]\<rparr>,
               ''/data/zero2'' \<mapsto> \<lparr>shape = [2], voxels = [Num 0, Num 0]\<rparr>],
      isdir = (\<lambda>p. False),
      listdir = (\<lambda>p. []),
      path_join = (\<lambda>d f. d @ ''/'' @ f)\<rparr>"

subsection \<open>Rows of the table\<close>

text \<open>
  The engine's answer is a Python dictionary keyed by the requested metric names, which
  are names of measures of the engine. The predicate says that these names are pairwise
  different and that none of them is one of the five names the program itself stores in
  a record or a row.
\<close>

definition response_ok :: "'v bpm \<Rightarrow> bool" where
  "response_ok b \<longleftrightarrow>
     distinct (map fst (to_dict_meas b)) \<and>
     fst ` set (to_dict_meas b)
       \<inter> {''reference'', ''prediction'', ''label'', ''EmptyRef'', ''EmptyPred''} = {}"

text \<open>
  The row of the specification (sections 4.5 and 6) for one subject and one label: the
  fields \<^verbatim>\<open>reference\<close>, \<^verbatim>\<open>prediction\<close>, \<^verbatim>\<open>label\<close>, then the metric fields in the order
  of the engine's answer, then the two flags.
\<close>

definition table_row :: "string \<Rightarrow> string \<Rightarrow> float64 \<Rightarrow> 'v bpm \<Rightarrow> (string, 'v pyval) dict" where
  "table_row r p l b =
     [(''reference'', PStr r), (''prediction'', PStr p), (''label'', PNum l)]
       @ map (\<lambda>(k, v). (k, PMetric v)) (to_dict_meas b)
       @ [(''EmptyRef'', PBool (flag_empty_ref b)), (''EmptyPred'', PBool (flag_empty_pred b))]"

text \<open>
  The row the program builds for a label whose record is \<open>dict_seg b\<close>: the three
  identifying fields updated with the record.
\<close>

definition raw_row :: "string \<Rightarrow> string \<Rightarrow> float64 \<Rightarrow> 'v bpm \<Rightarrow> (string, 'v pyval) dict" where
  "raw_row r p l b =
     fold (\<lambda>(k, v) row. setitem k v row) (dict_seg b)
       [(''reference'', PStr r), (''prediction'', PStr p), (''label'', PNum l)]"

text \<open>
  The label keys of a subject result, in the order of insertion: the discovered labels,
  or the single key 0 of the special case when there is none.
\<close>

definition subject_labels :: "volume \<Rightarrow> volume \<Rightarrow> float64 list" where
  "subject_labels rd pd = (if unique_labels rd pd = [] then [Num 0] else unique_labels rd pd)"

text \<open>
  The typed view of a run over subjects whose images are given: the engine answers of
  each subject in turn, the engine state passed from one subject to the next.
\<close>

fun subjects_run ::
  "('v, 's) engine \<Rightarrow> string list \<Rightarrow> (string \<times> volume \<times> string \<times> volume) list \<Rightarrow> 's \<Rightarrow>
   (string \<times> string \<times> (float64 \<times> 'v bpm) list) list \<times> 's" where
  "subjects_run E ms [] s = ([], s)"
| "subjects_run E ms ((p, pd, r, rd) # subs) s =
     (let (recs, s') = subject_records E pd rd ms s;
          (rest, s'') = subjects_run E ms subs s'
      in ((r, p, recs) # rest, s''))"

text \<open>
  For the metric list of the run, the engine gives an answer with well-formed names on
  every call.
\<close>

definition engine_names_ok :: "('v, 's) engine \<Rightarrow> string list \<Rightarrow> bool" where
  "engine_names_ok E ms \<longleftrightarrow> (\<forall>pred ref s. response_ok (fst (E pred ref ms s)))"

section \<open>Basic facts\<close>

subsection \<open>Floats and label discovery\<close>

lemma float_eq_Num [simp]: "float_eq x (Num y) \<longleftrightarrow> x = Num y"
  by (cases x) auto

lemma float_eq_iff: "float_eq x y \<longleftrightarrow> x = y \<and> x \<noteq> NaN"
  by (cases x; cases y) auto

lemma Num_in_set_iff: "Num x \<in> set xs \<longleftrightarrow> x \<in> set (finite_values xs)"
  by (induction xs rule: finite_values.induct) auto

lemma finite_values_append: "finite_values (xs @ ys) = finite_values xs @ finite_values ys"
  by (induction xs rule: finite_values.induct) auto

lemma finite_values_map_Num: "finite_values (map Num rs) = rs"
  by (induction rs) auto

lemma finite_values_filter:
  "finite_values (filter (\<lambda>x. x \<noteq> Num 0) xs) = filter (\<lambda>x. x \<noteq> 0) (finite_values xs)"
  by (induction xs rule: finite_values.induct) auto

lemma finite_values_np_unique: "finite_values (np_unique xs) = sort (remdups (finite_values xs))"
  by (simp add: np_unique_def finite_values_append finite_values_map_Num)

lemma NaN_in_np_unique: "NaN \<in> set (np_unique xs) \<longleftrightarrow> NaN \<in> set xs"
  by (auto simp: np_unique_def)

lemma set_np_unique: "set (np_unique xs) = set xs"
proof (rule set_eqI)
  fix x show "x \<in> set (np_unique xs) \<longleftrightarrow> x \<in> set xs"
  proof (cases x)
    case (Num r)
    then show ?thesis
      using Num_in_set_iff [of r "np_unique xs"] Num_in_set_iff [of r xs]
      by (simp add: finite_values_np_unique)
  next
    case NaN
    then show ?thesis by (simp add: NaN_in_np_unique)
  qed
qed

lemma distinct_np_unique: "distinct (np_unique xs)"
  by (auto simp: np_unique_def distinct_map inj_on_def)

lemma np_unique_sorted_list:
  "np_unique xs =
     map Num (sorted_list_of_set (set (finite_values xs))) @ (if NaN \<in> set xs then [NaN] else [])"
  by (simp add: np_unique_def sorted_list_of_set_sort_remdups)

lemma set_unique_labels:
  "set (unique_labels r p) = (set (voxels r) - {Num 0}) \<union> (set (voxels p) - {Num 0})"
  by (auto simp: unique_labels_def Let_def set_np_unique)

lemma distinct_unique_labels: "distinct (unique_labels r p)"
  by (simp add: unique_labels_def Let_def distinct_np_unique)

lemma unique_labels_sorted_list:
  "unique_labels r p =
     map Num (sorted_list_of_set
                ((set (finite_values (voxels r)) - {0}) \<union> (set (finite_values (voxels p)) - {0})))
       @ (if NaN \<in> set (voxels r) \<union> set (voxels p) then [NaN] else [])"
proof -
  let ?f = "\<lambda>v. filter (\<lambda>x. \<not> float_eq x (Num 0)) (np_unique (voxels v))"
  have fv: "set (finite_values (?f v)) = set (finite_values (voxels v)) - {0}" for v
    by (auto simp: finite_values_filter finite_values_np_unique)
  have nan: "NaN \<in> set (?f v) \<longleftrightarrow> NaN \<in> set (voxels v)" for v
    by (simp add: NaN_in_np_unique)
  have "unique_labels r p = np_unique (?f r @ ?f p)"
    by (simp add: unique_labels_def Let_def)
  also have "\<dots> = map Num (sorted_list_of_set (set (finite_values (?f r @ ?f p))))
                   @ (if NaN \<in> set (?f r @ ?f p) then [NaN] else [])"
    by (rule np_unique_sorted_list)
  also have "set (finite_values (?f r @ ?f p)) =
               (set (finite_values (voxels r)) - {0}) \<union> (set (finite_values (voxels p)) - {0})"
    unfolding finite_values_append set_append fv ..
  also have "NaN \<in> set (?f r @ ?f p) \<longleftrightarrow> NaN \<in> set (voxels r) \<union> set (voxels p)"
    unfolding set_append Un_iff nan ..
  finally show ?thesis .
qed

lemma finite_values_unique_labels:
  "finite_values (unique_labels r p) =
     sorted_list_of_set
       ((set (finite_values (voxels r)) - {0}) \<union> (set (finite_values (voxels p)) - {0}))"
  by (simp add: unique_labels_sorted_list finite_values_append finite_values_map_Num)

lemma unique_labels_empty:
  assumes "set (voxels pd) \<subseteq> {Num 0}" "set (voxels rd) \<subseteq> {Num 0}"
  shows "unique_labels rd pd = []"
proof -
  from assms have "set (unique_labels rd pd) = {}" by (auto simp: set_unique_labels)
  then show ?thesis by simp
qed

lemma np_unique_idem_filter:
  "np_unique (filter P (np_unique xs) @ filter P (np_unique xs)) = filter P (np_unique xs)"
proof -
  let ?S = "sort (remdups (finite_values xs))"
  let ?n = "if NaN \<in> set xs then [NaN] else []"
  let ?S' = "filter (\<lambda>x. P (Num x)) ?S"
  let ?n' = "filter P ?n"
  have f: "filter P (np_unique xs) = map Num ?S' @ ?n'"
    by (simp add: np_unique_def filter_map comp_def)
  have fv: "finite_values (map Num ?S' @ ?n') = ?S'"
    by (simp add: finite_values_append finite_values_map_Num)
  have sd: "sorted ?S'" "distinct ?S'"
    using sorted_filter [of "\<lambda>x. x" ?S "\<lambda>x. P (Num x)"] by simp_all
  then have "sorted_list_of_set (set ?S') = ?S'"
    by (rule sorted_list_of_set.idem_if_sorted_distinct)
  then have s: "sort (remdups (?S' @ ?S')) = ?S'"
    using sorted_list_of_set_sort_remdups [of "?S' @ ?S'"] by simp
  have n: "(if NaN \<in> set ((map Num ?S' @ ?n') @ (map Num ?S' @ ?n')) then [NaN] else []) = ?n'"
    by auto
  have fv2: "finite_values ((map Num ?S' @ ?n') @ (map Num ?S' @ ?n')) = ?S' @ ?S'"
    unfolding finite_values_append [of "map Num ?S' @ ?n'"] fv ..
  have "np_unique ((map Num ?S' @ ?n') @ (map Num ?S' @ ?n')) = map Num ?S' @ ?n'"
    unfolding np_unique_def [of "(map Num ?S' @ ?n') @ (map Num ?S' @ ?n')"] fv2 s n ..
  then show ?thesis unfolding f .
qed

subsection \<open>Rebuilding from masks\<close>

lemma assign_fold_nth:
  "length acc = length (voxels V) \<Longrightarrow>
   length (fold (\<lambda>l acc. assign_at_mask l (voxels (label_mask V l)) acc) ls acc) = length (voxels V) \<and>
   (\<forall>i<length (voxels V).
      fold (\<lambda>l acc. assign_at_mask l (voxels (label_mask V l)) acc) ls acc ! i =
        (if voxels V ! i \<in> set ls \<and> voxels V ! i \<noteq> NaN then voxels V ! i else acc ! i))"
proof (induction ls arbitrary: acc)
  case Nil
  then show ?case by simp
next
  case (Cons l ls)
  let ?acc = "assign_at_mask l (voxels (label_mask V l)) acc"
  have len: "length ?acc = length (voxels V)"
    using Cons.prems by (simp add: assign_at_mask_def label_mask_def)
  have nth: "?acc ! i = (if float_eq (voxels V ! i) l then l else acc ! i)" if "i < length (voxels V)" for i
    using that Cons.prems by (simp add: assign_at_mask_def label_mask_def)
  from Cons.IH [OF len] nth show ?case by (auto simp: float_eq_iff)
qed

lemma reconstruct_nth:
  assumes "set (voxels V) - {Num 0} \<subseteq> set ls" "i < length (voxels V)"
  shows "reconstruct V ls ! i = (if voxels V ! i = NaN then Num 0 else voxels V ! i)"
proof -
  from assms(2) have "voxels V ! i \<in> set (voxels V)" by simp
  with assms(1) have "voxels V ! i \<in> set ls \<or> voxels V ! i = Num 0" by auto
  with assms(2) show ?thesis
    using assign_fold_nth [of "replicate (length (voxels V)) (Num 0)" V ls]
    by (auto simp: reconstruct_def)
qed

lemma length_reconstruct: "length (reconstruct V ls) = length (voxels V)"
  using assign_fold_nth [of "replicate (length (voxels V)) (Num 0)" V ls]
  by (simp add: reconstruct_def)

subsection \<open>Dictionaries, the loop and the driver\<close>

lemma setitem_fresh: "k \<notin> fst ` set d \<Longrightarrow> setitem k v d = d @ [(k, v)]"
  by (induction d) auto

lemma map_of_setitem: "map_of (setitem k v d) k' = (if k' = k then Some v else map_of d k')"
  by (induction d) auto

lemma dict_seg_flags:
  "map_of (dict_seg b) ''EmptyRef'' = Some (PBool (flag_empty_ref b))"
  "map_of (dict_seg b) ''EmptyPred'' = Some (PBool (flag_empty_pred b))"
  by (simp_all add: dict_seg_def map_of_setitem)

lemma load_example:
  "load_nifti_image example_fs ''ref'' = Inr \<lparr>shape = [2, 2], voxels = [Num 0, Num 1, Num 2, Num 1]\<rparr>"
  "load_nifti_image example_fs ''pred'' = Inr \<lparr>shape = [2, 2], voxels = [Num 3, Num 1, Num 0, Num 1]\<rparr>"
  "load_nifti_image example_fs ''empty'' = Inr \<lparr>shape = [2, 2], voxels = [Num 0, Num 0, Num 0, Num 0]\<rparr>"
  "load_nifti_image example_fs ''flat'' = Inr \<lparr>shape = [4], voxels = [Num 0, Num 0, Num 0, Num 0]\<rparr>"
  "load_nifti_image example_fs ''nan1'' = Inr \<lparr>shape = [3], voxels = [NaN, Num 1, Num 0]\<rparr>"
  "load_nifti_image example_fs ''zero3'' = Inr \<lparr>shape = [3], voxels = [Num 0, Num 0, Num 0]\<rparr>"
  "load_nifti_image example_fs ''nan'' = Inr \<lparr>shape = [2], voxels = [NaN, Num 0]\<rparr>"
  "load_nifti_image example_fs ''zero2'' = Inr \<lparr>shape = [2], voxels = [Num 0, Num 0]\<rparr>"
  by (simp_all add: load_nifti_image_def example_fs_def)

lemma label_loop_deterministic:
  "deterministic_engine E \<Longrightarrow>
   fst (label_loop E pd rd ms ul ls (d, s)) = fst (label_loop E pd rd ms ul ls (d, s'))"
proof (induction ls arbitrary: d s s')
  case Nil
  then show ?case by simp
next
  case (Cons l ls)
  obtain b s1 where E1: "E (label_mask pd l) (label_mask rd l) ms s = (b, s1)"
    by (cases "E (label_mask pd l) (label_mask rd l) ms s")
  obtain b' s1' where E2: "E (label_mask pd l) (label_mask rd l) ms s' = (b', s1')"
    by (cases "E (label_mask pd l) (label_mask rd l) ms s'")
  from Cons.prems E1 E2 have bb: "b' = b"
    unfolding deterministic_engine_def by (metis fst_conv)
  show ?case
  proof (cases "py_max ul")
    case (Inl e)
    with E1 E2 bb show ?thesis by simp
  next
    case (Inr m)
    show ?thesis
    proof (cases "float_eq l m")
      case True
      with Inr E1 E2 bb show ?thesis by simp
    next
      case False
      have "fst (label_loop E pd rd ms ul ls (setitem (Lab l) (PDict (dict_seg b)) d, s1)) =
            fst (label_loop E pd rd ms ul ls (setitem (Lab l) (PDict (dict_seg b)) d, s1'))"
        using Cons.prems by (rule Cons.IH)
      with False Inr E1 E2 bb show ?thesis by simp
    qed
  qed
qed

lemma subjects_loop_append:
  "subjects_loop E fs ms (pre @ post) (out, s) =
     (case subjects_loop E fs ms pre (out, s) of
        (Inl e, s') \<Rightarrow> (Inl e, s')
      | (Inr out', s') \<Rightarrow> subjects_loop E fs ms post (out', s'))"
proof (induction pre arbitrary: out s)
  case Nil
  then show ?case by simp
next
  case (Cons pr pre)
  obtain p r where pr: "pr = (p, r)" by (cases pr)
  show ?case
    unfolding pr using Cons.IH
    by (simp split: prod.split sum.split)
qed

lemma subjects_loop_fails:
  assumes "(p, r) \<in> set pairs"
    and "\<And>s. \<exists>e. compute_metrics_single_subject E fs p r ms s = (Inl e, s)"
  shows "\<exists>e s'. subjects_loop E fs ms pairs (out, s) = (Inl e, s')"
  using assms(1)
proof (induction pairs arbitrary: out s)
  case Nil
  then show ?case by simp
next
  case (Cons pr pairs)
  obtain p' r' where pr: "pr = (p', r')" by (cases pr)
  obtain res s1 where c: "compute_metrics_single_subject E fs p' r' ms s = (res, s1)"
    by (cases "compute_metrics_single_subject E fs p' r' ms s")
  show ?case
  proof (cases res)
    case (Inl e)
    with pr c show ?thesis by simp
  next
    case (Inr d)
    with assms(2) [of s] c have "(p', r') \<noteq> (p, r)" by auto
    with Cons.prems pr have "(p, r) \<in> set pairs" by auto
    then obtain e s' where "subjects_loop E fs ms pairs (out @ [d], s1) = (Inl e, s')"
      using Cons.IH by blast
    with pr c Inr show ?thesis by simp
  qed
qed

subsection \<open>The table builder\<close>

lemma fold_setitem_fresh:
  "distinct (map fst m) \<Longrightarrow> fst ` set m \<inter> fst ` set row = {} \<Longrightarrow>
   fold (\<lambda>(k, v) row. setitem k v row) m row = row @ m"
proof (induction m arbitrary: row)
  case Nil
  then show ?case by simp
next
  case (Cons kv m)
  obtain k v where kv: "kv = (k, v)" by (cases kv)
  from Cons.prems kv have fresh: "k \<notin> fst ` set row" by auto
  have "fold (\<lambda>(k, v) row. setitem k v row) m (row @ [(k, v)]) = (row @ [(k, v)]) @ m"
    using Cons.prems kv by (intro Cons.IH) (auto simp: image_iff)
  with fresh kv show ?case by (simp add: setitem_fresh)
qed

lemma dict_seg_ok:
  assumes "response_ok b"
  shows "dict_seg b =
           map (\<lambda>(k, v). (k, PMetric v)) (to_dict_meas b)
             @ [(''EmptyRef'', PBool (flag_empty_ref b)), (''EmptyPred'', PBool (flag_empty_pred b))]"
proof -
  let ?m = "map (\<lambda>(k, v). (k, PMetric v)) (to_dict_meas b)"
  have keys: "fst ` set ?m = fst ` set (to_dict_meas b)" by force
  from assms have "''EmptyRef'' \<notin> fst ` set ?m" "''EmptyPred'' \<notin> fst ` set ?m"
    unfolding keys response_ok_def by auto
  then show ?thesis
    by (simp add: dict_seg_def setitem_fresh)
qed

lemma raw_row_ok:
  assumes "response_ok b"
  shows "raw_row r p l b = table_row r p l b"
proof -
  let ?m = "map (\<lambda>(k, v). (k, PMetric v)) (to_dict_meas b)"
  have keys: "map fst ?m = map fst (to_dict_meas b)" by (simp add: split_beta)
  have d: "distinct (map fst (dict_seg b))"
    using assms unfolding dict_seg_ok [OF assms] response_ok_def
    by (auto simp: keys simp del: map_map)
  have f: "fst ` set (dict_seg b)
             \<inter> fst ` set [(''reference'', PStr r), (''prediction'', PStr p), (''label'', PNum l :: 'a pyval)] = {}"
    using assms unfolding dict_seg_ok [OF assms] response_ok_def
    by (auto simp: image_iff)
  from fold_setitem_fresh [OF d f] show ?thesis
    by (simp add: raw_row_def table_row_def dict_seg_ok [OF assms])
qed

lemma subject_dict_keys:
  "map fst (subject_dict r p recs) = Str ''reference'' # Str ''prediction'' # map (\<lambda>x. Lab (fst x)) recs"
  by (simp add: subject_dict_def split_beta)

lemma distinct_subject_dict:
  "distinct (map fst recs) \<Longrightarrow> distinct (map fst (subject_dict r p recs))"
  by (auto simp: subject_dict_keys distinct_map inj_on_def)

lemma getitem_subject_dict:
  "getitem (subject_dict r p recs) (Str ''reference'') = Inr (PStr r)"
  "getitem (subject_dict r p recs) (Str ''prediction'') = Inr (PStr p)"
  by (simp_all add: getitem_def subject_dict_def)

lemma getitem_subject_dict_label:
  assumes "distinct (map fst recs)" "(l, b) \<in> set recs"
  shows "getitem (subject_dict r p recs) (Lab l) = Inr (PDict (dict_seg b))"
proof -
  have "(Lab l, PDict (dict_seg b)) \<in> set (subject_dict r p recs)"
    using assms(2) by (force simp: subject_dict_def)
  with distinct_subject_dict [OF assms(1), of r p]
  have "map_of (subject_dict r p recs) (Lab l) = Some (PDict (dict_seg b))" by simp
  then show ?thesis by (simp add: getitem_def)
qed

lemma label_rows_subject_dict:
  assumes "distinct (map fst recs)"
  shows "set recs' \<subseteq> set recs \<Longrightarrow>
         label_rows (subject_dict r p recs) (map (\<lambda>x. Lab (fst x)) recs') rows =
           Inr (rows @ map (\<lambda>(l, b). raw_row r p l b) recs')"
proof (induction recs' arbitrary: rows)
  case Nil
  then show ?case by simp
next
  case (Cons lb recs')
  obtain l b where lb: "lb = (l, b)" by (cases lb)
  with Cons.prems have "(l, b) \<in> set recs" by simp
  then have g: "getitem (subject_dict r p recs) (Lab l) = Inr (PDict (dict_seg b))"
    using assms getitem_subject_dict_label by blast
  from Cons.prems have "set recs' \<subseteq> set recs" by simp
  then have "label_rows (subject_dict r p recs) (map (\<lambda>x. Lab (fst x)) recs') (rows @ [raw_row r p l b]) =
               Inr ((rows @ [raw_row r p l b]) @ map (\<lambda>(l, b). raw_row r p l b) recs')"
    by (rule Cons.IH)
  with g lb show ?case
    by (simp add: getitem_subject_dict raw_row_def)
qed

lemma labels_subject_dict:
  "filter (\<lambda>key. key \<notin> set [Str ''reference'', Str ''prediction'']) (map fst (subject_dict r p recs))
     = map (\<lambda>x. Lab (fst x)) recs"
  by (simp add: subject_dict_keys filter_id_conv)

lemma build_rows_subject_dicts:
  "\<forall>(r, p, recs) \<in> set srs. distinct (map fst recs) \<Longrightarrow>
   build_rows (map (\<lambda>(r, p, recs). subject_dict r p recs) srs) rows =
     Inr (rows @ concat (map (\<lambda>(r, p, recs). map (\<lambda>(l, b). raw_row r p l b) recs) srs))"
proof (induction srs arbitrary: rows)
  case Nil
  then show ?case by simp
next
  case (Cons sr srs)
  obtain r p recs where sr: "sr = (r, p, recs)" by (cases sr)
  with Cons.prems have d: "distinct (map fst recs)" by simp
  have inner: "label_rows (subject_dict r p recs) (map (\<lambda>x. Lab (fst x)) recs) rows =
                 Inr (rows @ map (\<lambda>(l, b). raw_row r p l b) recs)"
    using d by (rule label_rows_subject_dict) simp
  from Cons.prems have "\<forall>(r, p, recs) \<in> set srs. distinct (map fst recs)" by simp
  then have "build_rows (map (\<lambda>(r, p, recs). subject_dict r p recs) srs)
                (rows @ map (\<lambda>(l, b). raw_row r p l b) recs) =
             Inr ((rows @ map (\<lambda>(l, b). raw_row r p l b) recs)
                    @ concat (map (\<lambda>(r, p, recs). map (\<lambda>(l, b). raw_row r p l b) recs) srs))"
    by (rule Cons.IH)
  with inner sr show ?case
    by (simp add: labels_subject_dict del: set_simps list.set)
qed

lemma set_first_seen: "set (first_seen acc xs) = set acc \<union> set xs"
  by (induction xs arbitrary: acc) auto

lemma distinct_first_seen: "distinct acc \<Longrightarrow> distinct (first_seen acc xs)"
  by (induction xs arbitrary: acc) auto

subsection \<open>The evaluator on volumes without NaN\<close>

lemma fold_max_Num:
  "fold (\<lambda>item maxitem. if float_gt item maxitem then item else maxitem) (map Num xs) (Num x) =
     Num (fold max xs x)"
  by (induction xs arbitrary: x) (auto simp: max_def)

lemma py_max_Num:
  assumes "rs \<noteq> []"
  shows "py_max (map Num rs) = Inr (Num (Max (set rs)))"
proof (cases rs)
  case Nil
  with assms show ?thesis by simp
next
  case (Cons x xs)
  have "Max (set (x # xs)) = fold max xs x" by (rule Max.set_eq_fold)
  with Cons show ?thesis by (simp add: fold_max_Num)
qed

lemma unique_labels_nan_free:
  assumes "NaN \<notin> set (voxels r)" "NaN \<notin> set (voxels p)"
  shows "unique_labels r p = map Num (finite_values (unique_labels r p))"
  using assms unique_labels_sorted_list [of r p]
  by (simp add: finite_values_map_Num)

lemma sorted_finite_unique_labels:
  "sorted (finite_values (unique_labels r p))" "distinct (finite_values (unique_labels r p))"
  by (simp_all add: finite_values_unique_labels)

lemma Max_is_last:
  assumes "sorted (pre @ l # ls)" "distinct (pre @ l # ls)"
  shows "(l = Max (set (pre @ l # ls))) \<longleftrightarrow> ls = []"
proof
  assume l: "l = Max (set (pre @ l # ls))"
  show "ls = []"
  proof (rule ccontr)
    assume "ls \<noteq> []"
    then obtain x where x: "x \<in> set ls" by (cases ls) auto
    with assms have "l \<le> x" "l \<noteq> x" by (auto simp: sorted_append)
    moreover have "x \<le> Max (set (pre @ l # ls))" using x by (intro Max_ge) auto
    ultimately show False using l by simp
  qed
next
  assume "ls = []"
  with assms have le: "\<And>x. x \<in> set (pre @ l # ls) \<Longrightarrow> x \<le> l" by (auto simp: sorted_append)
  have "Max (set (pre @ l # ls)) = l"
    by (rule Max_eqI) (use le in auto)
  then show "l = Max (set (pre @ l # ls))" by simp
qed

lemma label_loop_sorted:
  "sorted (pre @ rest) \<Longrightarrow> distinct (pre @ rest) \<Longrightarrow> rest \<noteq> [] \<Longrightarrow>
   label_loop E pd rd ms (map Num (pre @ rest)) (map Num rest) (d, s) =
     (Inr (True, fst (evaluate_labels E pd rd ms (map Num rest) (d, s))),
      snd (evaluate_labels E pd rd ms (map Num rest) (d, s)))"
proof (induction rest arbitrary: pre d s)
  case Nil
  then show ?case by simp
next
  case (Cons l ls)
  obtain b s' where E: "E (label_mask pd (Num l)) (label_mask rd (Num l)) ms s = (b, s')"
    by (cases "E (label_mask pd (Num l)) (label_mask rd (Num l)) ms s")
  have mx: "py_max (map Num (pre @ l # ls)) = Inr (Num (Max (set (pre @ l # ls))))"
    by (rule py_max_Num) simp
  show ?case
  proof (cases "ls = []")
    case True
    with Cons.prems have "l = Max (set (pre @ l # ls))"
      using Max_is_last [of pre l ls] by simp
    with True E mx show ?thesis by simp
  next
    case False
    with Cons.prems have ne: "l \<noteq> Max (set (pre @ l # ls))"
      using Max_is_last [of pre l ls] by simp
    have "label_loop E pd rd ms (map Num ((pre @ [l]) @ ls)) (map Num ls)
            (setitem (Lab (Num l)) (PDict (dict_seg b)) d, s')
          = (Inr (True, fst (evaluate_labels E pd rd ms (map Num ls) (setitem (Lab (Num l)) (PDict (dict_seg b)) d, s'))),
             snd (evaluate_labels E pd rd ms (map Num ls) (setitem (Lab (Num l)) (PDict (dict_seg b)) d, s')))"
      using Cons.prems False by (intro Cons.IH) simp_all
    with ne E mx show ?thesis by simp
  qed
qed

lemma evaluate_labels_run:
  "distinct ls \<Longrightarrow> Lab ` set ls \<inter> fst ` set d = {} \<Longrightarrow>
   evaluate_labels E pd rd ms ls (d, s) =
     (d @ map (\<lambda>(l, b). (Lab l, PDict (dict_seg b))) (fst (engine_run E pd rd ms ls s)),
      snd (engine_run E pd rd ms ls s))"
proof (induction ls arbitrary: d s)
  case Nil
  then show ?case by simp
next
  case (Cons l ls)
  obtain b s' where E: "E (label_mask pd l) (label_mask rd l) ms s = (b, s')"
    by (cases "E (label_mask pd l) (label_mask rd l) ms s")
  from Cons.prems have fresh: "Lab l \<notin> fst ` set d" by auto
  have "Lab ` set ls \<inter> fst ` set (d @ [(Lab l, PDict (dict_seg b))]) = {}"
    using Cons.prems by auto
  with Cons.prems have
    "evaluate_labels E pd rd ms ls (d @ [(Lab l, PDict (dict_seg b))], s') =
       ((d @ [(Lab l, PDict (dict_seg b))]) @ map (\<lambda>(l, b). (Lab l, PDict (dict_seg b))) (fst (engine_run E pd rd ms ls s')),
        snd (engine_run E pd rd ms ls s'))"
    by (intro Cons.IH) simp_all
  with E fresh show ?case
    by (simp add: setitem_fresh split: prod.split)
qed

lemma map_fst_engine_run: "map fst (fst (engine_run E pd rd ms ls s)) = ls"
proof (induction ls arbitrary: s)
  case Nil
  then show ?case by simp
next
  case (Cons l ls)
  obtain b s' where E: "E (label_mask pd l) (label_mask rd l) ms s = (b, s')"
    by (cases "E (label_mask pd l) (label_mask rd l) ms s")
  obtain bs s'' where R: "engine_run E pd rd ms ls s' = (bs, s'')"
    by (cases "engine_run E pd rd ms ls s'")
  from Cons.IH [of s'] R have "map fst bs = ls" by simp
  with E R show ?case by simp
qed

lemma map_fst_subject_records:
  "map fst (fst (subject_records E pd rd ms s)) =
     (if unique_labels rd pd = [] then [Num 0] else unique_labels rd pd)"
  by (simp add: subject_records_def map_fst_engine_run split: prod.split)

lemma label_loop_nan_free:
  assumes "NaN \<notin> set (voxels rd)" "NaN \<notin> set (voxels pd)" "unique_labels rd pd \<noteq> []"
  shows "label_loop E pd rd ms (unique_labels rd pd) (unique_labels rd pd) (d, s) =
           (Inr (True, fst (evaluate_labels E pd rd ms (unique_labels rd pd) (d, s))),
            snd (evaluate_labels E pd rd ms (unique_labels rd pd) (d, s)))"
proof -
  let ?rs = "finite_values (unique_labels rd pd)"
  have ul: "unique_labels rd pd = map Num ([] @ ?rs)"
    using unique_labels_nan_free [OF assms(1,2)] by simp
  with assms(3) have ne: "?rs \<noteq> []" by auto
  have "label_loop E pd rd ms (map Num ([] @ ?rs)) (map Num ?rs) (d, s) =
          (Inr (True, fst (evaluate_labels E pd rd ms (map Num ?rs) (d, s))),
           snd (evaluate_labels E pd rd ms (map Num ?rs) (d, s)))"
    using ne by (intro label_loop_sorted) (simp_all add: sorted_finite_unique_labels)
  with ul show ?thesis by simp
qed

lemma compute_metrics_single_subject_ok:
  assumes "load_nifti_image fs p = Inr pd" "load_nifti_image fs r = Inr rd" "shape pd = shape rd"
    and "NaN \<notin> set (voxels rd)" "NaN \<notin> set (voxels pd)"
  shows "compute_metrics_single_subject E fs p r ms s =
           (Inr (subject_dict r p (fst (subject_records E pd rd ms s))),
            snd (subject_records E pd rd ms s))"
proof (cases "unique_labels rd pd = []")
  case True
  with assms(1-3) show ?thesis
    by (simp add: compute_metrics_single_subject_def subject_records_def subject_dict_def
        split: prod.split)
next
  case False
  let ?d0 = "[(Str ''reference'', PStr r), (Str ''prediction'', PStr p)]"
  have loop: "label_loop E pd rd ms (unique_labels rd pd) (unique_labels rd pd) (?d0, s) =
           (Inr (True, fst (evaluate_labels E pd rd ms (unique_labels rd pd) (?d0, s))),
            snd (evaluate_labels E pd rd ms (unique_labels rd pd) (?d0, s)))"
    using assms(4,5) False by (rule label_loop_nan_free)
  have "evaluate_labels E pd rd ms (unique_labels rd pd) (?d0, s)
        = (?d0 @ map (\<lambda>(l, b). (Lab l, PDict (dict_seg b))) (fst (engine_run E pd rd ms (unique_labels rd pd) s)),
           snd (engine_run E pd rd ms (unique_labels rd pd) s))"
    by (intro evaluate_labels_run) (auto simp: distinct_unique_labels)
  with loop assms(1-3) False show ?thesis
    by (simp add: compute_metrics_single_subject_def subject_records_def subject_dict_def Let_def)
qed

text \<open>
  On volumes without NaN the loop with the \<^verbatim>\<open>break\<close> and the formulation with the
  explicit conditional agree.
\<close>

lemma sentinel_loop_equals_conditional_nan_free:
  assumes "\<And>v. load_nifti_image fs p = Inr v \<Longrightarrow> NaN \<notin> set (voxels v)"
    and "\<And>v. load_nifti_image fs r = Inr v \<Longrightarrow> NaN \<notin> set (voxels v)"
  shows "compute_metrics_single_subject E fs p r ms s = evaluate_subject_spec E fs p r ms s"
proof (cases "load_nifti_image fs p")
  case (Inl e)
  then show ?thesis
    by (simp add: compute_metrics_single_subject_def evaluate_subject_spec_def)
next
  case pd: (Inr pd)
  show ?thesis
  proof (cases "load_nifti_image fs r")
    case (Inl e)
    with pd show ?thesis
      by (simp add: compute_metrics_single_subject_def evaluate_subject_spec_def)
  next
    case rd: (Inr rd)
    show ?thesis
    proof (cases "unique_labels rd pd = []")
      case True
      with pd rd show ?thesis
        by (simp add: compute_metrics_single_subject_def evaluate_subject_spec_def)
    next
      case False
      let ?d0 = "[(Str ''reference'', PStr r), (Str ''prediction'', PStr p)]"
      have "label_loop E pd rd ms (unique_labels rd pd) (unique_labels rd pd) (?d0, s) =
           (Inr (True, fst (evaluate_labels E pd rd ms (unique_labels rd pd) (?d0, s))),
            snd (evaluate_labels E pd rd ms (unique_labels rd pd) (?d0, s)))"
        using assms(2) [OF rd] assms(1) [OF pd] False by (rule label_loop_nan_free)
      with pd rd False show ?thesis
        by (simp add: compute_metrics_single_subject_def evaluate_subject_spec_def Let_def split_beta)
    qed
  qed
qed

lemma engine_run_member:
  "l \<in> set ls \<Longrightarrow>
   \<exists>s0. (l, fst (E (label_mask pd l) (label_mask rd l) ms s0)) \<in> set (fst (engine_run E pd rd ms ls s))"
proof (induction ls arbitrary: s)
  case Nil
  then show ?case by simp
next
  case (Cons x ls)
  obtain b s1 where E: "E (label_mask pd x) (label_mask rd x) ms s = (b, s1)"
    by (cases "E (label_mask pd x) (label_mask rd x) ms s")
  obtain bs s2 where R: "engine_run E pd rd ms ls s1 = (bs, s2)"
    by (cases "engine_run E pd rd ms ls s1")
  show ?case
  proof (cases "l = x")
    case True
    have "(x, fst (E (label_mask pd x) (label_mask rd x) ms s)) \<in> set (fst (engine_run E pd rd ms (x # ls) s))"
      using E R by simp
    with True show ?thesis by blast
  next
    case False
    with Cons.prems have "l \<in> set ls" by simp
    then obtain s0 where "(l, fst (E (label_mask pd l) (label_mask rd l) ms s0)) \<in> set (fst (engine_run E pd rd ms ls s1))"
      using Cons.IH by blast
    then have "(l, fst (E (label_mask pd l) (label_mask rd l) ms s0)) \<in> set (fst (engine_run E pd rd ms (x # ls) s))"
      using E R by simp
    then show ?thesis by blast
  qed
qed

lemma filter_key_once:
  "distinct (map fst d) \<Longrightarrow> (k, v) \<in> set d \<Longrightarrow> length (filter (\<lambda>kv. fst kv = k) d) = 1"
proof (induction d)
  case Nil
  then show ?case by simp
next
  case (Cons x d)
  show ?case
  proof (cases "fst x = k")
    case True
    with Cons.prems have "filter (\<lambda>kv. fst kv = k) d = []"
      by (auto simp: filter_empty_conv image_iff)
    with True show ?thesis by simp
  next
    case False
    with Cons show ?thesis by auto
  qed
qed

lemma mask_empty_iff:
  "(\<forall>x\<in>set (voxels (label_mask V (Num l))). float_eq x (Num 0)) \<longleftrightarrow> Num l \<notin> set (voxels V)"
  by (auto simp: label_mask_def)

text \<open>
  On volumes without NaN every label of the union gets exactly one record, the engine's
  answer on the masks of that label with the engine's two flags.
\<close>

lemma every_label_evaluated_once_nan_free:
  assumes "load_nifti_image fs p = Inr pd" "load_nifti_image fs r = Inr rd" "shape pd = shape rd"
    and "NaN \<notin> set (voxels rd)" "NaN \<notin> set (voxels pd)"
    and "l \<in> (set (voxels rd) - {Num 0}) \<union> (set (voxels pd) - {Num 0})"
  shows "\<exists>d s' b s0.
           compute_metrics_single_subject E fs p r ms s = (Inr d, s')
           \<and> length (filter (\<lambda>kv. fst kv = Lab l) d) = 1
           \<and> b = fst (E (label_mask pd l) (label_mask rd l) ms s0)
           \<and> map_of d (Lab l) = Some (PDict (dict_seg b))
           \<and> map_of (dict_seg b) ''EmptyRef'' = Some (PBool (flag_empty_ref b))
           \<and> map_of (dict_seg b) ''EmptyPred'' = Some (PBool (flag_empty_pred b))
           \<and> (flags_report_empty_masks E \<longrightarrow>
                flag_empty_ref b = (l \<notin> set (voxels rd)) \<and>
                flag_empty_pred b = (l \<notin> set (voxels pd)))"
proof -
  let ?recs = "fst (subject_records E pd rd ms s)"
  let ?d = "subject_dict r p ?recs"
  from assms(6) have l: "l \<in> set (unique_labels rd pd)"
    by (simp add: set_unique_labels)
  then have ne: "unique_labels rd pd \<noteq> []" by auto
  then have recs: "?recs = fst (engine_run E pd rd ms (unique_labels rd pd) s)"
    by (simp add: subject_records_def)
  obtain s0 where mem: "(l, fst (E (label_mask pd l) (label_mask rd l) ms s0)) \<in> set ?recs"
    using engine_run_member [OF l, of E pd rd ms s] recs by auto
  let ?b = "fst (E (label_mask pd l) (label_mask rd l) ms s0)"
  have dist: "distinct (map fst ?d)"
    using ne by (intro distinct_subject_dict) (simp add: map_fst_subject_records distinct_unique_labels)
  have memd: "(Lab l, PDict (dict_seg ?b)) \<in> set ?d"
    using mem by (force simp: subject_dict_def)
  have once: "length (filter (\<lambda>kv. fst kv = Lab l) ?d) = 1"
    using dist memd by (rule filter_key_once)
  have look: "map_of ?d (Lab l) = Some (PDict (dict_seg ?b))"
    using dist memd by simp
  have flags: "flags_report_empty_masks E \<longrightarrow>
                 flag_empty_ref ?b = (l \<notin> set (voxels rd)) \<and> flag_empty_pred ?b = (l \<notin> set (voxels pd))"
  proof (cases l)
    case (Num x)
    then show ?thesis
      using mask_empty_iff [of rd x] mask_empty_iff [of pd x]
      by (simp add: flags_report_empty_masks_def)
  next
    case NaN
    with assms(4-6) show ?thesis by auto
  qed
  have "compute_metrics_single_subject E fs p r ms s = (Inr ?d, snd (subject_records E pd rd ms s))"
    using assms(1-5) by (rule compute_metrics_single_subject_ok)
  with once look flags dict_seg_flags [of ?b] show ?thesis by blast
qed

lemma subjects_loop_ok:
  "\<forall>(p, pd, r, rd) \<in> set subs.
      load_nifti_image fs p = Inr pd \<and> load_nifti_image fs r = Inr rd \<and> shape pd = shape rd
      \<and> NaN \<notin> set (voxels rd) \<and> NaN \<notin> set (voxels pd) \<Longrightarrow>
   subjects_loop E fs ms (map (\<lambda>(p, pd, r, rd). (p, r)) subs) (out, s) =
     (Inr (out @ map (\<lambda>(r, p, recs). subject_dict r p recs) (fst (subjects_run E ms subs s))),
      snd (subjects_run E ms subs s))"
proof (induction subs arbitrary: out s)
  case Nil
  then show ?case by simp
next
  case (Cons sub subs)
  obtain p pd r rd where sub: "sub = (p, pd, r, rd)" by (cases sub)
  obtain recs s1 where sr: "subject_records E pd rd ms s = (recs, s1)"
    by (cases "subject_records E pd rd ms s")
  obtain rest s2 where run: "subjects_run E ms subs s1 = (rest, s2)"
    by (cases "subjects_run E ms subs s1")
  from Cons.prems sub have
    "load_nifti_image fs p = Inr pd" "load_nifti_image fs r = Inr rd" "shape pd = shape rd"
    "NaN \<notin> set (voxels rd)" "NaN \<notin> set (voxels pd)"
    by simp_all
  then have c: "compute_metrics_single_subject E fs p r ms s = (Inr (subject_dict r p recs), s1)"
    using sr by (simp add: compute_metrics_single_subject_ok)
  from Cons.prems have "\<forall>(p, pd, r, rd) \<in> set subs.
      load_nifti_image fs p = Inr pd \<and> load_nifti_image fs r = Inr rd \<and> shape pd = shape rd
      \<and> NaN \<notin> set (voxels rd) \<and> NaN \<notin> set (voxels pd)"
    by simp
  then have "subjects_loop E fs ms (map (\<lambda>(p, pd, r, rd). (p, r)) subs) (out @ [subject_dict r p recs], s1) =
     (Inr ((out @ [subject_dict r p recs]) @ map (\<lambda>(r, p, recs). subject_dict r p recs) (fst (subjects_run E ms subs s1))),
      snd (subjects_run E ms subs s1))"
    by (rule Cons.IH)
  with sub c sr run show ?case by simp
qed

lemma subjects_run_labels:
  "map (\<lambda>(r, p, recs). (r, p, map fst recs)) (fst (subjects_run E ms subs s)) =
   map (\<lambda>(p, pd, r, rd). (r, p, subject_labels rd pd)) subs"
proof (induction subs arbitrary: s)
  case Nil
  then show ?case by simp
next
  case (Cons sub subs)
  obtain p pd r rd where sub: "sub = (p, pd, r, rd)" by (cases sub)
  obtain recs s1 where sr: "subject_records E pd rd ms s = (recs, s1)"
    by (cases "subject_records E pd rd ms s")
  obtain rest s2 where run: "subjects_run E ms subs s1 = (rest, s2)"
    by (cases "subjects_run E ms subs s1")
  have "map fst recs = subject_labels rd pd"
    using map_fst_subject_records [of E pd rd ms s] sr by (simp add: subject_labels_def)
  moreover have "map (\<lambda>(r, p, recs). (r, p, map fst recs)) rest =
                 map (\<lambda>(p, pd, r, rd). (r, p, subject_labels rd pd)) subs"
    using Cons.IH [of s1] run by simp
  ultimately show ?case using sub sr run by simp
qed

lemma distinct_subject_labels: "distinct (subject_labels rd pd)"
  by (simp add: subject_labels_def distinct_unique_labels)

lemma strict_sorted_subject_labels: "sorted_wrt (<) (finite_values (subject_labels rd pd))"
  by (simp add: subject_labels_def finite_values_unique_labels)

lemma subject_labels_nan_free:
  assumes "NaN \<notin> set (voxels rd)" "NaN \<notin> set (voxels pd)"
  shows "subject_labels rd pd = map Num (finite_values (subject_labels rd pd))"
  using unique_labels_nan_free [OF assms] by (simp add: subject_labels_def)

lemma engine_run_names_ok:
  "engine_names_ok E ms \<Longrightarrow> (l, b) \<in> set (fst (engine_run E pd rd ms ls s)) \<Longrightarrow> response_ok b"
proof (induction ls arbitrary: s)
  case Nil
  then show ?case by simp
next
  case (Cons x ls)
  obtain b1 s1 where E: "E (label_mask pd x) (label_mask rd x) ms s = (b1, s1)"
    by (cases "E (label_mask pd x) (label_mask rd x) ms s")
  obtain bs s2 where R: "engine_run E pd rd ms ls s1 = (bs, s2)"
    by (cases "engine_run E pd rd ms ls s1")
  from Cons.prems(1) E have "response_ok b1"
    unfolding engine_names_ok_def by (metis fst_conv)
  moreover have "response_ok b" if "(l, b) \<in> set bs"
    using Cons.IH [OF Cons.prems(1), of s1] R that by simp
  ultimately show ?case using Cons.prems(2) E R by auto
qed

lemma subject_records_names_ok:
  assumes "engine_names_ok E ms" "(l, b) \<in> set (fst (subject_records E pd rd ms s))"
  shows "response_ok b"
proof (cases "unique_labels rd pd = []")
  case True
  with assms(2) have "b = fst (E pd rd ms s)"
    by (simp add: subject_records_def split_beta)
  with assms(1) show ?thesis by (simp add: engine_names_ok_def)
next
  case False
  with assms show ?thesis
    by (auto simp: subject_records_def dest: engine_run_names_ok)
qed

lemma subjects_run_ok:
  assumes "engine_names_ok E ms"
  shows "(r, p, recs) \<in> set (fst (subjects_run E ms subs s)) \<Longrightarrow>
         distinct (map fst recs) \<and> (\<forall>(l, b) \<in> set recs. response_ok b)"
proof (induction subs arbitrary: s)
  case Nil
  then show ?case by simp
next
  case (Cons sub subs)
  obtain p' pd r' rd where sub: "sub = (p', pd, r', rd)" by (cases sub)
  obtain recs1 s1 where sr: "subject_records E pd rd ms s = (recs1, s1)"
    by (cases "subject_records E pd rd ms s")
  obtain rest s2 where run: "subjects_run E ms subs s1 = (rest, s2)"
    by (cases "subjects_run E ms subs s1")
  from Cons.prems sub sr run have "(r, p, recs) = (r', p', recs1) \<or> (r, p, recs) \<in> set rest"
    by simp
  then show ?case
  proof
    assume "(r, p, recs) = (r', p', recs1)"
    then have eq: "recs = fst (subject_records E pd rd ms s)" using sr by simp
    have "map fst recs = subject_labels rd pd"
      unfolding eq by (simp add: map_fst_subject_records subject_labels_def)
    then have "distinct (map fst recs)"
      by (simp add: distinct_subject_labels)
    moreover have "\<forall>(l, b) \<in> set recs. response_ok b"
      unfolding eq using subject_records_names_ok [OF assms] by blast
    ultimately show ?thesis by simp
  next
    assume "(r, p, recs) \<in> set rest"
    then show ?thesis using Cons.IH [of s1] run by simp
  qed
qed

lemma map_of_table_row:
  "map_of (table_row r p l b) ''reference'' = Some (PStr r)"
  "map_of (table_row r p l b) ''prediction'' = Some (PStr p)"
  "map_of (table_row r p l b) ''label'' = Some (PNum l)"
  by (simp_all add: table_row_def)

lemma row_fields_concat:
  "map (\<lambda>row. (map_of row ''reference'', map_of row ''prediction'', map_of row ''label''))
     (concat (map (\<lambda>(r, p, recs). map (\<lambda>(l, b). table_row r p l b) recs) srs)) =
   concat (map (\<lambda>(r, p, ls). map (\<lambda>l. (Some (PStr r), Some (PStr p), Some (PNum l))) ls)
     (map (\<lambda>(r, p, recs). (r, p, map fst recs)) srs))"
  by (induction srs) (auto simp: map_of_table_row)

text \<open>
  On volumes without NaN the rows follow the subjects in the order they were processed
  and, within a subject, the label keys in strictly ascending order, the single key 0
  when no label was discovered.
\<close>

lemma table_rows_ordered_nan_free:
  assumes "\<forall>(p, pd, r, rd) \<in> set subs.
             load_nifti_image fs p = Inr pd \<and> load_nifti_image fs r = Inr rd \<and> shape pd = shape rd
             \<and> NaN \<notin> set (voxels rd) \<and> NaN \<notin> set (voxels pd)"
    and "engine_names_ok E ms"
  shows "\<exists>output_list s' rows.
           subjects_loop E fs ms (map (\<lambda>(p, pd, r, rd). (p, r)) subs) ([], s) = (Inr output_list, s')
           \<and> build_rows output_list [] = Inr rows
           \<and> map (\<lambda>row. (map_of row ''reference'', map_of row ''prediction'', map_of row ''label'')) rows =
               concat (map (\<lambda>(p, pd, r, rd).
                              map (\<lambda>l. (Some (PStr r), Some (PStr p), Some (PNum l))) (subject_labels rd pd))
                           subs)
           \<and> (\<forall>(p, pd, r, rd) \<in> set subs.
                 subject_labels rd pd = map Num (finite_values (subject_labels rd pd))
                 \<and> sorted_wrt (<) (finite_values (subject_labels rd pd)))"
proof -
  let ?srs = "fst (subjects_run E ms subs s)"
  let ?out = "map (\<lambda>(r, p, recs). subject_dict r p recs) ?srs"
  let ?rows = "concat (map (\<lambda>(r, p, recs). map (\<lambda>(l, b). table_row r p l b) recs) ?srs)"
  have loop: "subjects_loop E fs ms (map (\<lambda>(p, pd, r, rd). (p, r)) subs) ([], s) =
                (Inr ?out, snd (subjects_run E ms subs s))"
    using subjects_loop_ok [OF assms(1), of E ms "[]" s] by simp
  have ok: "\<forall>(r, p, recs) \<in> set ?srs. distinct (map fst recs) \<and> (\<forall>(l, b) \<in> set recs. response_ok b)"
    using subjects_run_ok [OF assms(2)] by blast
  then have d: "\<forall>(r, p, recs) \<in> set ?srs. distinct (map fst recs)"
    by auto
  have same: "map (\<lambda>(l, b). raw_row r p l b) recs = map (\<lambda>(l, b). table_row r p l b) recs"
    if m: "(r, p, recs) \<in> set ?srs" for r p recs
  proof -
    have "response_ok b" if "(l, b) \<in> set recs" for l b
      using ok m that by fastforce
    then show ?thesis by (auto simp: raw_row_ok)
  qed
  have "map (\<lambda>(r, p, recs). map (\<lambda>(l, b). raw_row r p l b) recs) ?srs =
        map (\<lambda>(r, p, recs). map (\<lambda>(l, b). table_row r p l b) recs) ?srs"
    by (rule map_cong) (auto simp: same)
  with build_rows_subject_dicts [OF d, of "[]"]
  have rows: "build_rows ?out [] = Inr ?rows"
    by simp
  have fields: "map (\<lambda>row. (map_of row ''reference'', map_of row ''prediction'', map_of row ''label'')) ?rows =
               concat (map (\<lambda>(p, pd, r, rd).
                              map (\<lambda>l. (Some (PStr r), Some (PStr p), Some (PNum l))) (subject_labels rd pd))
                           subs)"
    unfolding row_fields_concat subjects_run_labels
    by (simp add: comp_def case_prod_unfold)
  have sorted: "\<forall>(p, pd, r, rd) \<in> set subs.
                 subject_labels rd pd = map Num (finite_values (subject_labels rd pd))
                 \<and> sorted_wrt (<) (finite_values (subject_labels rd pd))"
    using assms(1) subject_labels_nan_free strict_sorted_subject_labels by fastforce
  from loop rows fields sorted show ?thesis by blast
qed

section \<open>The claims\<close>

text \<open>
  C1. When both images load, have the same shape and are all background, the subject
  evaluator returns the two identifying entries and exactly one metric entry, under the
  key 0; that entry is the engine's answer on the two whole volumes (one call, from the
  initial engine state), and the loop over the labels ends at once, without a
  \<^verbatim>\<open>break\<close> and with the dictionary and the engine state it was given.
\<close>

theorem all_background_single_entry:
  assumes "load_nifti_image fs p = Inr pd" "load_nifti_image fs r = Inr rd" "shape pd = shape rd"
    and "set (voxels pd) \<subseteq> {Num 0}" "set (voxels rd) \<subseteq> {Num 0}"
  shows "compute_metrics_single_subject E fs p r ms s =
           (Inr [(Str ''reference'', PStr r), (Str ''prediction'', PStr p),
                 (Lab (Num 0), PDict (dict_seg (fst (E pd rd ms s))))],
            snd (E pd rd ms s))
         \<and> label_loop E pd rd ms (unique_labels rd pd) (unique_labels rd pd) (d, s) = (Inr (False, d), s)"
proof -
  have "unique_labels rd pd = []"
    using assms(4,5) by (rule unique_labels_empty)
  with assms(1-3) show ?thesis
    by (simp add: compute_metrics_single_subject_def split: prod.split)
qed

theorem all_background_single_entry_witness:
  "load_nifti_image example_fs ''empty'' = Inr \<lparr>shape = [2, 2], voxels = [Num 0, Num 0, Num 0, Num 0]\<rparr>
   \<and> set (voxels \<lparr>shape = [2, 2], voxels = [Num 0, Num 0, Num 0, Num 0]\<rparr>) \<subseteq> {Num 0}
   \<and> compute_metrics_single_subject count_engine example_fs ''empty'' ''empty'' [''dsc''] 0 =
       (Inr [(Str ''reference'', PStr ''empty''), (Str ''prediction'', PStr ''empty''),
             (Lab (Num 0), PDict [(''dsc'', PMetric 0), (''EmptyRef'', PBool True), (''EmptyPred'', PBool True)])],
        1)"
  using all_background_single_entry
    [of example_fs "''empty''" "\<lparr>shape = [2, 2], voxels = [Num 0, Num 0, Num 0, Num 0]\<rparr>" "''empty''"
        "\<lparr>shape = [2, 2], voxels = [Num 0, Num 0, Num 0, Num 0]\<rparr>" count_engine "[''dsc'']" 0 "[]"]
  by (simp add: load_example count_engine_def dict_seg_def)

text \<open>
  C2 (the code on a failing input). The claim gives every non-zero label of either volume
  one record. With the reference voxels NaN, 1, 0 and an all-background prediction, NaN
  is a non-zero value of the reference and a member of the label list \<open>[1, NaN]\<close>;
  \<^verbatim>\<open>max\<close> of that list is 1, so the loop breaks after the label 1: the result holds
  a record for 1 and none for NaN, after a single call of the engine.
\<close>

theorem nan_label_gets_no_record:
  "load_nifti_image example_fs ''nan1'' = Inr \<lparr>shape = [3], voxels = [NaN, Num 1, Num 0]\<rparr>
   \<and> load_nifti_image example_fs ''zero3'' = Inr \<lparr>shape = [3], voxels = [Num 0, Num 0, Num 0]\<rparr>
   \<and> \<not> float_eq NaN (Num 0)
   \<and> unique_labels \<lparr>shape = [3], voxels = [NaN, Num 1, Num 0]\<rparr>
                     \<lparr>shape = [3], voxels = [Num 0, Num 0, Num 0]\<rparr> = [Num 1, NaN]
   \<and> py_max [Num 1, NaN] = Inr (Num 1)
   \<and> compute_metrics_single_subject count_engine example_fs ''zero3'' ''nan1'' [''dsc''] 0 =
       (Inr [(Str ''reference'', PStr ''nan1''), (Str ''prediction'', PStr ''zero3''),
             (Lab (Num 1),
              PDict [(''dsc'', PMetric 0), (''EmptyRef'', PBool False), (''EmptyPred'', PBool True)])],
        1)"
  by (simp add: load_example compute_metrics_single_subject_def unique_labels_def np_unique_def
      label_mask_def count_engine_def dict_seg_def)

text \<open>
  C3. The label discoverer returns exactly the union of the distinct non-zero values of the
  reference volume and of the prediction volume: the numbers in strictly ascending order,
  followed by one NaN when a volume holds NaN; no value twice, the background 0 excluded.
  On a pair \<open>(a, a)\<close> it returns the sorted distinct non-zero values of \<open>a\<close>, and it
  returns the empty list when both volumes are all background.
\<close>

theorem unique_labels_is_sorted_union:
  "unique_labels r p =
     map Num (sorted_list_of_set
                ((set (finite_values (voxels r)) - {0}) \<union> (set (finite_values (voxels p)) - {0})))
       @ (if NaN \<in> set (voxels r) \<union> set (voxels p) then [NaN] else [])
   \<and> set (unique_labels r p) = (set (voxels r) - {Num 0}) \<union> (set (voxels p) - {Num 0})
   \<and> distinct (unique_labels r p)
   \<and> sorted_wrt (<) (finite_values (unique_labels r p))
   \<and> Num 0 \<notin> set (unique_labels r p)
   \<and> unique_labels a a = filter (\<lambda>x. \<not> float_eq x (Num 0)) (np_unique (voxels a))
   \<and> (set (voxels r) \<subseteq> {Num 0} \<and> set (voxels p) \<subseteq> {Num 0} \<longrightarrow> unique_labels r p = [])"
proof -
  have aa: "unique_labels a a = filter (\<lambda>x. \<not> float_eq x (Num 0)) (np_unique (voxels a))"
    unfolding unique_labels_def Let_def by (rule np_unique_idem_filter)
  have empty: "set (voxels r) \<subseteq> {Num 0} \<and> set (voxels p) \<subseteq> {Num 0} \<longrightarrow> unique_labels r p = []"
    using unique_labels_empty [of p r] by blast
  have strict: "sorted_wrt (<) (finite_values (unique_labels r p))"
    unfolding finite_values_unique_labels by simp
  have no0: "Num 0 \<notin> set (unique_labels r p)"
    by (simp add: set_unique_labels)
  from unique_labels_sorted_list [of r p] set_unique_labels [of r p] distinct_unique_labels [of r p]
    strict no0 aa empty
  show ?thesis by blast
qed

theorem unique_labels_is_sorted_union_witness:
  "set (voxels \<lparr>shape = [2, 2], voxels = [Num 0, Num 0, Num 0, Num 0]\<rparr>) \<subseteq> {Num 0}
   \<and> unique_labels \<lparr>shape = [2, 2], voxels = [Num 0, Num 0, Num 0, Num 0]\<rparr>
        \<lparr>shape = [2, 2], voxels = [Num 0, Num 0, Num 0, Num 0]\<rparr> = []
   \<and> unique_labels \<lparr>shape = [2, 2], voxels = [Num 2, NaN, Num 1, Num 2]\<rparr>
        \<lparr>shape = [2, 2], voxels = [Num 2, NaN, Num 1, Num 2]\<rparr> = [Num 1, Num 2, NaN]"
  using unique_labels_is_sorted_union
    [of "\<lparr>shape = [2, 2], voxels = [Num 0, Num 0, Num 0, Num 0]\<rparr>"
        "\<lparr>shape = [2, 2], voxels = [Num 0, Num 0, Num 0, Num 0]\<rparr>"
        "\<lparr>shape = [2, 2], voxels = [Num 2, NaN, Num 1, Num 2]\<rparr>"]
  by (simp add: np_unique_def)

text \<open>
  C4. When the two images of a subject load and differ in shape, the evaluator fails with
  the shape error, which carries both shapes, and leaves the engine's state as it was
  (for every engine, so no label mask was handed to it). In a run, when the subjects
  before that pair are evaluated, the run ends with that error and the engine state those
  subjects left; and whenever the pair is among the subjects of a run, the run ends with
  an error and hands no table to the export.
\<close>

theorem shape_mismatch_aborts:
  assumes "load_nifti_image fs p = Inr pd" "load_nifti_image fs r = Inr rd" "shape pd \<noteq> shape rd"
  shows "compute_metrics_single_subject E fs p r ms s =
           (Inl (ValueError_shape (shape pd) (shape rd)), s)
         \<and> (\<forall>a pre post out s1.
               subject_pairs fs a = Inr (pre @ (p, r) # post) \<and>
               subjects_loop E fs (arg_metrics a) pre ([], s) = (Inr out, s1)
               \<longrightarrow> main E fs a s = (Inl (ValueError_shape (shape pd) (shape rd)), s1))
         \<and> (\<forall>a pairs.
               subject_pairs fs a = Inr pairs \<and> (p, r) \<in> set pairs
               \<longrightarrow> (\<exists>e s'. main E fs a s = (Inl e, s')))"
proof -
  have one: "compute_metrics_single_subject E fs p r ms s =
               (Inl (ValueError_shape (shape pd) (shape rd)), s)" for ms s
    using assms by (simp add: compute_metrics_single_subject_def)
  have two: "main E fs a s = (Inl (ValueError_shape (shape pd) (shape rd)), s1)"
    if "subject_pairs fs a = Inr (pre @ (p, r) # post)"
      and "subjects_loop E fs (arg_metrics a) pre ([], s) = (Inr out, s1)"
    for a pre post out s1
    using that one by (simp add: main_def subjects_loop_append)
  have three: "\<exists>e s'. main E fs a s = (Inl e, s')"
    if sp: "subject_pairs fs a = Inr pairs" and mem: "(p, r) \<in> set pairs" for a pairs
  proof -
    have "\<exists>e. compute_metrics_single_subject E fs p r (arg_metrics a) s0 = (Inl e, s0)" for s0
      using one by blast
    with mem have "\<exists>e s'. subjects_loop E fs (arg_metrics a) pairs ([], s) = (Inl e, s')"
      by (rule subjects_loop_fails)
    then obtain e s' where "subjects_loop E fs (arg_metrics a) pairs ([], s) = (Inl e, s')"
      by blast
    with sp show ?thesis by (simp add: main_def)
  qed
  from one two three show ?thesis by blast
qed

theorem shape_mismatch_aborts_witness:
  "load_nifti_image example_fs ''empty'' = Inr \<lparr>shape = [2, 2], voxels = [Num 0, Num 0, Num 0, Num 0]\<rparr>
   \<and> load_nifti_image example_fs ''flat'' = Inr \<lparr>shape = [4], voxels = [Num 0, Num 0, Num 0, Num 0]\<rparr>
   \<and> [2, 2] \<noteq> [4::nat]
   \<and> compute_metrics_single_subject count_engine example_fs ''empty'' ''flat'' [''dsc''] 0 =
       (Inl (ValueError_shape [2, 2] [4]), 0)
   \<and> main count_engine example_fs
        \<lparr>arg_prediction = ''empty'', arg_reference = ''flat'', arg_metrics = [''dsc'']\<rparr> 0 =
       (Inl (ValueError_shape [2, 2] [4]), 0)"
proof -
  let ?a = "\<lparr>arg_prediction = ''empty'', arg_reference = ''flat'', arg_metrics = [''dsc'']\<rparr>"
  have pairs: "subject_pairs example_fs ?a = Inr ([] @ (''empty'', ''flat'') # [])"
    by (simp add: subject_pairs_def example_fs_def)
  have pre: "subjects_loop count_engine example_fs (arg_metrics ?a) [] ([], 0) = (Inr [], 0)"
    by simp
  have sh: "shape \<lparr>shape = [2, 2], voxels = [Num 0, Num 0, Num 0, Num 0]\<rparr> \<noteq> shape \<lparr>shape = [4], voxels = [Num 0, Num 0, Num 0, Num 0]\<rparr>"
    by simp
  note T = shape_mismatch_aborts [OF load_example(3) load_example(4) sh, of count_engine "[''dsc'']" 0]
  have one: "compute_metrics_single_subject count_engine example_fs ''empty'' ''flat'' [''dsc''] 0 =
               (Inl (ValueError_shape [2, 2] [4]), 0)"
    using T by simp
  have two: "main count_engine example_fs ?a 0 = (Inl (ValueError_shape [2, 2] [4]), 0)"
    using T [THEN conjunct2, THEN conjunct1, rule_format, OF conjI, OF pairs pre] by simp
  from one two show ?thesis
    by (simp add: load_example)
qed



text \<open>
  C6 (the code on a failing input). The claim puts the rows of a subject in ascending
  label order, the key 0 first when present. For one subject with the reference voxels
  NaN, 0 and an all-background prediction, the label list is \<open>[NaN]\<close>; NaN is not
  equal to \<^verbatim>\<open>max\<close> of the list, the loop ends without \<^verbatim>\<open>break\<close> and its \<^verbatim>\<open>else\<close>
  block adds the key 0 after the key NaN. The table of the run has the row of NaN
  first and the row of 0 second.
\<close>

theorem nan_only_subject_rows_unordered:
  "main count_engine example_fs
     \<lparr>arg_prediction = ''zero2'', arg_reference = ''nan'', arg_metrics = [''dsc'']\<rparr> 0 =
   (Inr \<lparr>columns = [''reference'', ''prediction'', ''label'', ''dsc'', ''EmptyRef'', ''EmptyPred''],
         cells =
           [[Some (PStr ''nan''), Some (PStr ''zero2''), Some (PNum NaN),
             Some (PMetric 0), Some (PBool True), Some (PBool True)],
            [Some (PStr ''nan''), Some (PStr ''zero2''), Some (PNum (Num 0)),
             Some (PMetric 0), Some (PBool False), Some (PBool True)]]\<rparr>,
    2)"
  by (simp add: main_def subject_pairs_def example_fs_def load_nifti_image_def
      compute_metrics_single_subject_def unique_labels_def np_unique_def label_mask_def
      count_engine_def dict_seg_def build_output_dataframe_def DataFrame_def getitem_def)

text \<open>
  C7 (the code on a failing input). The claim equates the loop with the \<^verbatim>\<open>break\<close> and
  the explicit conditional. With the reference voxels NaN, 0 and an all-background
  prediction the label list is \<open>[NaN]\<close>: the loop of the code evaluates NaN, does not
  break (NaN is not equal to the maximum NaN) and runs its \<^verbatim>\<open>else\<close> block, which
  adds the key 0 by a second call of the engine; the explicit conditional evaluates NaN
  alone. With the reference voxels NaN, 1, 0 the code stops after the label 1 and the
  explicit conditional goes on to NaN.
\<close>

theorem sentinel_loop_differs_on_nan:
  "compute_metrics_single_subject count_engine example_fs ''zero2'' ''nan'' [''dsc''] 0 =
     (Inr [(Str ''reference'', PStr ''nan''), (Str ''prediction'', PStr ''zero2''),
           (Lab NaN,
            PDict [(''dsc'', PMetric 0), (''EmptyRef'', PBool True), (''EmptyPred'', PBool True)]),
           (Lab (Num 0),
            PDict [(''dsc'', PMetric 0), (''EmptyRef'', PBool False), (''EmptyPred'', PBool True)])],
      2)
   \<and> evaluate_subject_spec count_engine example_fs ''zero2'' ''nan'' [''dsc''] 0 =
     (Inr [(Str ''reference'', PStr ''nan''), (Str ''prediction'', PStr ''zero2''),
           (Lab NaN,
            PDict [(''dsc'', PMetric 0), (''EmptyRef'', PBool True), (''EmptyPred'', PBool True)])],
      1)
   \<and> compute_metrics_single_subject count_engine example_fs ''zero3'' ''nan1'' [''dsc''] 0 \<noteq>
     evaluate_subject_spec count_engine example_fs ''zero3'' ''nan1'' [''dsc''] 0"
  by (simp add: load_example compute_metrics_single_subject_def evaluate_subject_spec_def
      unique_labels_def np_unique_def label_mask_def count_engine_def dict_seg_def)

text \<open>
  C8 (amended). The mask of a volume at a label has the shape of the volume and is true
  (1) exactly at the voxels equal to the label and false (0) elsewhere, equality being
  that of floats. Assigning each discovered label at the true voxels of its mask,
  starting from background, gives back every voxel of the volume that is not NaN, so
  every non-background number is recovered; a NaN voxel equals no label, lies in no mask
  and comes back as background. The volume may be either side of the pair the labels
  are discovered from.
\<close>

theorem label_mask_exact_and_reconstruct:
  "shape (label_mask V l) = shape V
   \<and> length (voxels (label_mask V l)) = length (voxels V)
   \<and> (\<forall>i<length (voxels V).
        (voxels (label_mask V l) ! i = Num 1 \<longleftrightarrow> float_eq (voxels V ! i) l)
        \<and> (voxels (label_mask V l) ! i = Num 0 \<longleftrightarrow> \<not> float_eq (voxels V ! i) l))
   \<and> length (reconstruct V (unique_labels V P)) = length (voxels V)
   \<and> length (reconstruct V (unique_labels R V)) = length (voxels V)
   \<and> (\<forall>i<length (voxels V).
        reconstruct V (unique_labels V P) ! i = (if voxels V ! i = NaN then Num 0 else voxels V ! i)
        \<and> reconstruct V (unique_labels R V) ! i = (if voxels V ! i = NaN then Num 0 else voxels V ! i))"
proof -
  have a: "set (voxels V) - {Num 0} \<subseteq> set (unique_labels V P)"
    and b: "set (voxels V) - {Num 0} \<subseteq> set (unique_labels R V)"
    by (auto simp: set_unique_labels)
  show ?thesis
    using reconstruct_nth [OF a] reconstruct_nth [OF b]
    by (simp add: label_mask_def length_reconstruct)
qed

theorem label_mask_exact_and_reconstruct_witness:
  "voxels (label_mask \<lparr>shape = [2, 2], voxels = [Num 2, NaN, Num 1, Num 2]\<rparr> (Num 2))
     = [Num 1, Num 0, Num 0, Num 1]
   \<and> reconstruct \<lparr>shape = [2, 2], voxels = [Num 2, NaN, Num 1, Num 2]\<rparr>
        (unique_labels \<lparr>shape = [2, 2], voxels = [Num 2, NaN, Num 1, Num 2]\<rparr>
                       \<lparr>shape = [2, 2], voxels = [Num 0, Num 3, Num 1, Num 0]\<rparr>) ! 2
      = Num 1"
  using label_mask_exact_and_reconstruct
    [of "\<lparr>shape = [2, 2], voxels = [Num 2, NaN, Num 1, Num 2]\<rparr>" "Num 2"
        "\<lparr>shape = [2, 2], voxels = [Num 0, Num 3, Num 1, Num 0]\<rparr>"]
  by (simp add: label_mask_def)

theorem reconstruct_loses_nan_voxel:
  "voxels \<lparr>shape = [3], voxels = [NaN, Num 1, Num 0]\<rparr> ! 0 = NaN
   \<and> \<not> float_eq NaN (Num 0)
   \<and> NaN \<in> set (unique_labels \<lparr>shape = [3], voxels = [NaN, Num 1, Num 0]\<rparr>
                                \<lparr>shape = [3], voxels = [Num 0, Num 0, Num 0]\<rparr>)
   \<and> voxels (label_mask \<lparr>shape = [3], voxels = [NaN, Num 1, Num 0]\<rparr> NaN) = [Num 0, Num 0, Num 0]
   \<and> reconstruct \<lparr>shape = [3], voxels = [NaN, Num 1, Num 0]\<rparr>
        (unique_labels \<lparr>shape = [3], voxels = [NaN, Num 1, Num 0]\<rparr>
                       \<lparr>shape = [3], voxels = [Num 0, Num 0, Num 0]\<rparr>)
      = [Num 0, Num 1, Num 0]"
  by (simp add: unique_labels_def np_unique_def reconstruct_def assign_at_mask_def label_mask_def)

text \<open>
  C9. With an engine whose answers do not depend on its state, two runs of the evaluator
  on the same file system, paths and metric list return the same result, whatever the
  engine states they start from (in particular the second run may start from the state
  the first one left).
\<close>

theorem evaluate_subject_deterministic:
  assumes "deterministic_engine E"
  shows "fst (compute_metrics_single_subject E fs p r ms s) =
         fst (compute_metrics_single_subject E fs p r ms s')"
proof (cases "load_nifti_image fs p")
  case (Inl e)
  then show ?thesis by (simp add: compute_metrics_single_subject_def)
next
  case pd: (Inr pd)
  show ?thesis
  proof (cases "load_nifti_image fs r")
    case (Inl e)
    with pd show ?thesis by (simp add: compute_metrics_single_subject_def)
  next
    case rd: (Inr rd)
    let ?d0 = "[(Str ''reference'', PStr r), (Str ''prediction'', PStr p)]"
    let ?ul = "unique_labels rd pd"
    obtain res1 s1 where l1: "label_loop E pd rd ms ?ul ?ul (?d0, s) = (res1, s1)"
      by (cases "label_loop E pd rd ms ?ul ?ul (?d0, s)")
    obtain res2 s2 where l2: "label_loop E pd rd ms ?ul ?ul (?d0, s') = (res2, s2)"
      by (cases "label_loop E pd rd ms ?ul ?ul (?d0, s')")
    from label_loop_deterministic [OF assms, of pd rd ms ?ul ?ul ?d0 s s'] l1 l2
    have res: "res2 = res1" by simp
    have whole: "fst (E pd rd ms s1) = fst (E pd rd ms s2)"
      using assms unfolding deterministic_engine_def by blast
    show ?thesis
    proof (cases res1)
      case (Inl e)
      with pd rd l1 l2 res show ?thesis
        by (simp add: compute_metrics_single_subject_def)
    next
      case (Inr bd)
      obtain broke d where bd: "bd = (broke, d)" by (cases bd)
      obtain b1 t1 where w1: "E pd rd ms s1 = (b1, t1)" by (cases "E pd rd ms s1")
      obtain b2 t2 where w2: "E pd rd ms s2 = (b2, t2)" by (cases "E pd rd ms s2")
      from whole w1 w2 have "b2 = b1" by simp
      with pd rd l1 l2 res Inr bd w1 w2 show ?thesis
        by (simp add: compute_metrics_single_subject_def)
    qed
  qed
qed

theorem evaluate_subject_deterministic_witness:
  "deterministic_engine count_engine
   \<and> fst (compute_metrics_single_subject count_engine example_fs ''pred'' ''ref'' [''dsc''] 0) =
     fst (compute_metrics_single_subject count_engine example_fs ''pred'' ''ref'' [''dsc''] 7)"
proof -
  have d: "deterministic_engine count_engine"
    by (simp add: deterministic_engine_def count_engine_def)
  from d evaluate_subject_deterministic [OF d, of example_fs "''pred''" "''ref''" "[''dsc'']" 0 7]
  show ?thesis by simp
qed

text \<open>
  C10. For every sequence of subject results with pairwise different labels, whatever the
  metric names of their records, the builder succeeds; the table has one line of cells per
  row built, its columns are, without repetition, the fields that occur in some row, and
  a cell holds the row's value of the column's field, or the missing-value marker exactly
  when the row lacks that field.
\<close>

theorem build_table_column_superset:
  assumes "\<forall>(r, p, recs) \<in> set srs. distinct (map fst recs)"
  shows "\<exists>rows df.
           build_rows (map (\<lambda>(r, p, recs). subject_dict r p recs) srs) [] = Inr rows
           \<and> build_output_dataframe (map (\<lambda>(r, p, recs). subject_dict r p recs) srs) = Inr df
           \<and> length rows = sum_list (map (\<lambda>(r, p, recs). length recs) srs)
           \<and> set (columns df) = (\<Union>row \<in> set rows. fst ` set row)
           \<and> distinct (columns df)
           \<and> length (cells df) = length rows
           \<and> (\<forall>i < length rows.
                 cells df ! i = map (map_of (rows ! i)) (columns df)
                 \<and> (\<forall>c \<in> set (columns df). map_of (rows ! i) c = None \<longleftrightarrow> c \<notin> fst ` set (rows ! i)))"
proof -
  let ?rows = "concat (map (\<lambda>(r, p, recs). map (\<lambda>(l, b). raw_row r p l b) recs) srs)"
  have rows: "build_rows (map (\<lambda>(r, p, recs). subject_dict r p recs) srs) [] = Inr ?rows"
    using build_rows_subject_dicts [OF assms, of "[]"] by simp
  then have df: "build_output_dataframe (map (\<lambda>(r, p, recs). subject_dict r p recs) srs) = Inr (DataFrame ?rows)"
    by (simp add: build_output_dataframe_def)
  have len: "length ?rows = sum_list (map (\<lambda>(r, p, recs). length recs) srs)"
    by (simp add: length_concat comp_def case_prod_unfold)
  have cols: "set (columns (DataFrame ?rows)) = (\<Union>row \<in> set ?rows. fst ` set row)"
    by (simp add: DataFrame_def Let_def set_first_seen)
  have dist: "distinct (columns (DataFrame ?rows))"
    by (simp add: DataFrame_def Let_def distinct_first_seen)
  have cells: "length (cells (DataFrame ?rows)) = length ?rows"
    by (simp add: DataFrame_def Let_def)
  have each: "cells (DataFrame ?rows) ! i = map (map_of (?rows ! i)) (columns (DataFrame ?rows))
              \<and> (\<forall>c \<in> set (columns (DataFrame ?rows)).
                    map_of (?rows ! i) c = None \<longleftrightarrow> c \<notin> fst ` set (?rows ! i))"
    if "i < length ?rows" for i
    using that by (simp add: DataFrame_def Let_def map_of_eq_None_iff)
  from rows df len cols dist cells each show ?thesis by blast
qed

theorem build_table_column_superset_witness:
  "distinct (map fst [(Num 1, \<lparr>to_dict_meas = [(''dsc'', 5::real)], flag_empty_ref = False, flag_empty_pred = False\<rparr>)])
   \<and> distinct (map fst [(Num 0, \<lparr>to_dict_meas = [(''nsd'', 7::real)], flag_empty_ref = True, flag_empty_pred = True\<rparr>)])
   \<and> build_output_dataframe
       [subject_dict ''r1'' ''p1'' [(Num 1, \<lparr>to_dict_meas = [(''dsc'', 5::real)], flag_empty_ref = False, flag_empty_pred = False\<rparr>)],
        subject_dict ''r2'' ''p2'' [(Num 0, \<lparr>to_dict_meas = [(''nsd'', 7)], flag_empty_ref = True, flag_empty_pred = True\<rparr>)]] =
       Inr \<lparr>columns = [''reference'', ''prediction'', ''label'', ''dsc'', ''EmptyRef'', ''EmptyPred'', ''nsd''],
            cells = [[Some (PStr ''r1''), Some (PStr ''p1''), Some (PNum (Num 1)), Some (PMetric 5),
                      Some (PBool False), Some (PBool False), None],
                     [Some (PStr ''r2''), Some (PStr ''p2''), Some (PNum (Num 0)), None,
                      Some (PBool True), Some (PBool True), Some (PMetric 7)]]\<rparr>"
proof -
  let ?srs = "[(''r1'', ''p1'', [(Num 1, \<lparr>to_dict_meas = [(''dsc'', 5::real)], flag_empty_ref = False, flag_empty_pred = False\<rparr>)]),
         (''r2'', ''p2'', [(Num 0, \<lparr>to_dict_meas = [(''nsd'', 7)], flag_empty_ref = True, flag_empty_pred = True\<rparr>)])]"
  have h: "\<forall>(r, p, recs) \<in> set ?srs. distinct (map fst recs)"
    by simp
  from h build_table_column_superset [OF h] show ?thesis
    by (simp add: build_output_dataframe_def DataFrame_def subject_dict_def dict_seg_def getitem_def)
qed

end
